theory Spec2Isabelle
  imports Main "HOL-Library.Word"
begin

section \<open>Go library functions the program calls\<close>

text \<open>
  Go strings are byte sequences; a \<^typ>\<open>string\<close> is a list of 8-bit characters, so the
  two agree. Every separator the program searches for is a single ASCII byte, hence the
  separator argument of \<open>strings.Contains\<close>, \<open>strings.Cut\<close>, \<open>strings.Count\<close> and
  \<open>strings.LastIndex\<close> is a \<^typ>\<open>char\<close> here.
\<close>

subsection \<open>Package strings\<close>

definition Contains :: "string \<Rightarrow> char \<Rightarrow> bool" where
  "Contains s c = (c \<in> set s)"

text \<open>\<open>strings.Cut\<close>: the text before and after the first separator; when there is
  none, the whole text and the empty string.\<close>

definition Cut :: "string \<Rightarrow> char \<Rightarrow> string \<times> string" where
  "Cut s c = (takeWhile (\<lambda>x. x \<noteq> c) s, drop 1 (dropWhile (\<lambda>x. x \<noteq> c) s))"

definition HasPrefix :: "string \<Rightarrow> string \<Rightarrow> bool" where
  "HasPrefix s p = (take (length p) s = p)"

definition HasSuffix :: "string \<Rightarrow> string \<Rightarrow> bool" where
  "HasSuffix s p = (length p \<le> length s \<and> drop (length s - length p) s = p)"

definition Count :: "string \<Rightarrow> char \<Rightarrow> nat" where
  "Count s c = length (filter (\<lambda>x. x = c) s)"

text \<open>\<open>strings.LastIndex\<close> and \<open>strings.Index\<close>, with \<open>None\<close> for Go's \<open>-1\<close>.\<close>

definition LastIndex :: "string \<Rightarrow> char \<Rightarrow> nat option" where
  "LastIndex s c =
     (if c \<in> set s then Some (length s - 1 - length (takeWhile (\<lambda>x. x \<noteq> c) (rev s)))
      else None)"

fun Index :: "string \<Rightarrow> string \<Rightarrow> nat option" where
  "Index [] p = (if p = [] then Some 0 else None)"
| "Index (c # s) p =
     (if HasPrefix (c # s) p then Some 0 else map_option Suc (Index s p))"

text \<open>\<open>strings.ReplaceAll(input, "\\", "")\<close> deletes every backslash.\<close>

definition RemoveBackslashes :: "string \<Rightarrow> string" where
  "RemoveBackslashes s = filter (\<lambda>x. x \<noteq> CHR 0x5C) s"

text \<open>
  \<open>strings.TrimSpace\<close> removes leading and trailing Unicode white space. In UTF-8 the
  white-space code points are the six ASCII bytes 09 to 0D and 20, and the sequences
  C2 85, C2 A0, E1 9A 80, E2 80 80 to E2 80 8A, E2 80 A8, E2 80 A9, E2 80 AF, E2 81 9F and
  E3 80 80. \<open>spaceWidth s\<close> is the number of bytes of the white-space code point that
  \<open>s\<close> starts with, 0 when it starts with none.
\<close>

definition asciiSpace :: "char \<Rightarrow> bool" where
  "asciiSpace c = (c \<in> set [CHR 0x09, CHR 0x0A, CHR 0x0B, CHR 0x0C, CHR 0x0D, CHR 0x20])"

fun spaceWidth :: "string \<Rightarrow> nat" where
  "spaceWidth [] = 0"
| "spaceWidth (a # s) =
     (if asciiSpace a then 1
      else if a = CHR 0xC2 \<and> (HasPrefix s [CHR 0x85] \<or> HasPrefix s [CHR 0xA0]) then 2
      else if a = CHR 0xE1 \<and> HasPrefix s [CHR 0x9A, CHR 0x80] then 3
      else if a = CHR 0xE2 \<and> length s \<ge> 2 \<and> s ! 0 = CHR 0x80
              \<and> (of_char (s ! 1) :: nat) \<in> {0x80..0x8A} \<union> {0xA8, 0xA9, 0xAF} then 3
      else if a = CHR 0xE2 \<and> HasPrefix s [CHR 0x81, CHR 0x9F] then 3
      else if a = CHR 0xE3 \<and> HasPrefix s [CHR 0x80, CHR 0x80] then 3
      else 0)"

text \<open>The white-space code point a text ends with: its encoding is at most three bytes
  long and no encoding is a suffix of another.\<close>

definition spaceWidthEnd :: "string \<Rightarrow> nat" where
  "spaceWidthEnd s =
     (let n = length s in
      if 1 \<le> n \<and> spaceWidth (drop (n - 1) s) = 1 then 1
      else if 2 \<le> n \<and> spaceWidth (drop (n - 2) s) = 2 then 2
      else if 3 \<le> n \<and> spaceWidth (drop (n - 3) s) = 3 then 3
      else 0)"

function TrimLeft :: "string \<Rightarrow> string" where
  "TrimLeft s = (if spaceWidth s = 0 then s else TrimLeft (drop (spaceWidth s) s))"
  by pat_completeness auto
termination
proof (relation "measure length")
  show "wf (measure length)"
    by simp
next
  fix s :: string
  assume w: "spaceWidth s \<noteq> 0"
  then have "s \<noteq> []"
    by (cases s) auto
  with w show "(drop (spaceWidth s) s, s) \<in> measure length"
    by simp
qed

function TrimRight :: "string \<Rightarrow> string" where
  "TrimRight s =
     (if spaceWidthEnd s = 0 then s else TrimRight (take (length s - spaceWidthEnd s) s))"
  by pat_completeness auto
termination
  by (relation "measure length") (auto simp: spaceWidthEnd_def Let_def split: if_splits)

definition TrimSpace :: "string \<Rightarrow> string" where
  "TrimSpace s = TrimRight (TrimLeft s)"

subsection \<open>Package net/url\<close>

text \<open>
  \<open>url.Parse\<close> and \<open>URL.Query\<close> as of Go 1.22. The program reads nothing of a parsed URL
  but its query, so \<open>URL\<close> keeps the field \<open>RawQuery\<close> alone; whether parsing fails is
  modelled in full (\<open>None\<close> is Go's non-nil error). Later releases of Go are stricter about
  a host in square brackets, which must then be an IPv6 literal; Go 1.22 and \<open>parseHost\<close>
  below accept any bracketed host. No input that the properties below are evaluated at has
  such a host, and the general statements speak of \<open>url_Parse\<close> without unfolding it.
\<close>

record URL =
  RawQuery :: string

datatype encoding =
  encodePath | encodeHost | encodeZone | encodeUserPassword | encodeQueryComponent
  | encodeFragment

definition isAlpha :: "char \<Rightarrow> bool" where
  "isAlpha c = (c \<in> set ''abcdefghijklmnopqrstuvwxyzABCDEFGHIJKLMNOPQRSTUVWXYZ'')"

definition isDigit :: "char \<Rightarrow> bool" where
  "isDigit c = (c \<in> set ''0123456789'')"

definition ishex :: "char \<Rightarrow> bool" where
  "ishex c = (c \<in> set ''0123456789abcdefABCDEF'')"

definition unhex :: "char \<Rightarrow> nat" where
  "unhex c =
     (if isDigit c then of_char c - 48
      else if c \<in> set ''abcdef'' then of_char c - 97 + 10
      else if c \<in> set ''ABCDEF'' then of_char c - 65 + 10
      else 0)"

text \<open>\<open>shouldEscape\<close>, for the two modes in which \<open>unescape\<close> consults it
  (\<open>encodeHost\<close> and \<open>encodeZone\<close>, which it treats alike).\<close>

definition shouldEscapeHost :: "char \<Rightarrow> bool" where
  "shouldEscapeHost c =
     (\<not> (isAlpha c \<or> isDigit c \<or> c \<in> set ''!$&()*+,;=:[]<>'' \<or> c = CHR 0x27
         \<or> c = CHR 0x22 \<or> c \<in> set ''-_.~''))"

fun unescape :: "encoding \<Rightarrow> string \<Rightarrow> string option" where
  "unescape mode [] = Some []"
| "unescape mode (c # s) =
     (if c = CHR ''%'' then
        (case s of
           h1 # h2 # s' \<Rightarrow>
             if ishex h1 \<and> ishex h2 then
               if mode = encodeHost \<and> unhex h1 < 8 \<and> [h1, h2] \<noteq> ''25'' then None
               else if mode = encodeZone \<and> [h1, h2] \<noteq> ''25''
                       \<and> unhex h1 * 16 + unhex h2 \<noteq> 32
                       \<and> shouldEscapeHost (char_of (unhex h1 * 16 + unhex h2)) then None
               else map_option (\<lambda>r. char_of (unhex h1 * 16 + unhex h2) # r) (unescape mode s')
             else None
         | _ \<Rightarrow> None)
      else if c = CHR ''+'' then
        map_option (\<lambda>r. (if mode = encodeQueryComponent then CHR '' '' else c) # r)
          (unescape mode s)
      else if (mode = encodeHost \<or> mode = encodeZone) \<and> (of_char c :: nat) < 128
              \<and> shouldEscapeHost c then None
      else map_option (\<lambda>r. c # r) (unescape mode s))"

definition stringContainsCTLByte :: "string \<Rightarrow> bool" where
  "stringContainsCTLByte s = (\<exists>c \<in> set s. (of_char c :: nat) < 32 \<or> c = CHR 0x7F)"

text \<open>\<open>getScheme\<close>: \<open>seen\<close> is the text already scanned, \<open>rawURL[:i]\<close>. The result is
  the scheme and the rest, \<open>None\<close> for "missing protocol scheme".\<close>

fun getScheme_from :: "string \<Rightarrow> string \<Rightarrow> string \<Rightarrow> (string \<times> string) option" where
  "getScheme_from rawURL seen [] = Some ([], rawURL)"
| "getScheme_from rawURL seen (c # cs) =
     (if isAlpha c then getScheme_from rawURL (seen @ [c]) cs
      else if isDigit c \<or> c \<in> set ''+-.'' then
        (if seen = [] then Some ([], rawURL) else getScheme_from rawURL (seen @ [c]) cs)
      else if c = CHR '':'' then (if seen = [] then None else Some (seen, cs))
      else Some ([], rawURL))"

definition getScheme :: "string \<Rightarrow> (string \<times> string) option" where
  "getScheme rawURL = getScheme_from rawURL [] rawURL"

definition validOptionalPort :: "string \<Rightarrow> bool" where
  "validOptionalPort port =
     (case port of [] \<Rightarrow> True | c # ds \<Rightarrow> c = CHR '':'' \<and> list_all isDigit ds)"

definition validUserinfo :: "string \<Rightarrow> bool" where
  "validUserinfo s =
     list_all (\<lambda>r. isAlpha r \<or> isDigit r \<or> r \<in> set ''-._:~!$&()*+,;=%@'' \<or> r = CHR 0x27) s"

definition parseHost :: "string \<Rightarrow> string option" where
  "parseHost host =
     (if HasPrefix host ''['' then
        (case LastIndex host CHR '']'' of
           None \<Rightarrow> None
         | Some i \<Rightarrow>
             if \<not> validOptionalPort (drop (i + 1) host) then None
             else
               (case Index (take i host) ''%25'' of
                  Some zone \<Rightarrow>
                    (case unescape encodeHost (take zone host) of
                       None \<Rightarrow> None
                     | Some host1 \<Rightarrow>
                         (case unescape encodeZone (drop zone (take i host)) of
                            None \<Rightarrow> None
                          | Some host2 \<Rightarrow>
                              (case unescape encodeHost (drop i host) of
                                 None \<Rightarrow> None
                               | Some host3 \<Rightarrow> Some (host1 @ host2 @ host3))))
                | None \<Rightarrow> unescape encodeHost host))
      else
        (case LastIndex host CHR '':'' of
           Some i \<Rightarrow>
             if \<not> validOptionalPort (drop i host) then None else unescape encodeHost host
         | None \<Rightarrow> unescape encodeHost host))"

text \<open>\<open>parseAuthority\<close>: only success or failure is kept (the user and the host are not
  read by the program).\<close>

definition parseAuthority :: "string \<Rightarrow> bool" where
  "parseAuthority authority =
     (case LastIndex authority CHR ''@'' of
        None \<Rightarrow> parseHost authority \<noteq> None
      | Some i \<Rightarrow>
          parseHost (drop (i + 1) authority) \<noteq> None
          \<and> validUserinfo (take i authority)
          \<and> (if Contains (take i authority) CHR '':'' then
                unescape encodeUserPassword (fst (Cut (take i authority) CHR '':'')) \<noteq> None
                \<and> unescape encodeUserPassword (snd (Cut (take i authority) CHR '':'')) \<noteq> None
              else unescape encodeUserPassword (take i authority) \<noteq> None))"

text \<open>\<open>parse(rawURL, viaRequest = false)\<close>. \<open>setPath\<close> fails exactly when
  \<open>unescape(path, encodePath)\<close> does.\<close>

definition parse :: "string \<Rightarrow> URL option" where
  "parse rawURL =
     (if stringContainsCTLByte rawURL then None
      else if rawURL = ''*'' then Some \<lparr>RawQuery = []\<rparr>
      else
        (case getScheme rawURL of
           None \<Rightarrow> None
         | Some (scheme, rest0) \<Rightarrow>
             let (rest, query) =
                   (if HasSuffix rest0 ''?'' \<and> Count rest0 CHR ''?'' = 1
                    then (butlast rest0, []) else Cut rest0 CHR ''?'')
             in
               if \<not> HasPrefix rest ''/'' \<and> scheme \<noteq> [] then Some \<lparr>RawQuery = query\<rparr>
               else if \<not> HasPrefix rest ''/'' \<and> Contains (fst (Cut rest CHR ''/'')) CHR '':''
               then None
               else if HasPrefix rest ''//'' \<and> \<not> (scheme = [] \<and> HasPrefix rest ''///'') then
                 (let authority = takeWhile (\<lambda>x. x \<noteq> CHR ''/'') (drop 2 rest);
                      path = dropWhile (\<lambda>x. x \<noteq> CHR ''/'') (drop 2 rest)
                  in if \<not> parseAuthority authority then None
                     else if unescape encodePath path = None then None
                     else Some \<lparr>RawQuery = query\<rparr>)
               else if unescape encodePath rest = None then None
               else Some \<lparr>RawQuery = query\<rparr>))"

text \<open>\<open>url.Parse\<close>: the fragment is cut off first and checked last.\<close>

definition url_Parse :: "string \<Rightarrow> URL option" where
  "url_Parse rawURL =
     (let (u, frag) = Cut rawURL CHR ''#'' in
      case parse u of
        None \<Rightarrow> None
      | Some url \<Rightarrow>
          if frag = [] then Some url
          else if unescape encodeFragment frag = None then None
          else Some url)"

text \<open>
  \<open>url.ParseQuery\<close> builds a map from keys to the list of their values; \<open>Values.Get\<close>
  reads the first value of a key. The association list below holds the pairs in the order
  of the query, so the first pair of a key is the one \<open>Get\<close> reads. \<open>URL.Query\<close> drops
  the error of \<open>ParseQuery\<close> and keeps the pairs that did parse.
\<close>

function parseQuery :: "string \<Rightarrow> (string \<times> string) list" where
  "parseQuery query =
     (if query = [] then []
      else
        let (key, query') = Cut query CHR ''&'' in
        if Contains key CHR '';'' then parseQuery query'
        else if key = [] then parseQuery query'
        else
          (case unescape encodeQueryComponent (fst (Cut key CHR ''='')) of
             None \<Rightarrow> parseQuery query'
           | Some k \<Rightarrow>
               (case unescape encodeQueryComponent (snd (Cut key CHR ''='')) of
                  None \<Rightarrow> parseQuery query'
                | Some v \<Rightarrow> (k, v) # parseQuery query')))"
  by pat_completeness auto
termination
proof (relation "measure length", goal_cases)
  case 1
  show ?case
    by simp
next
  case (2 query x key query')
  then show ?case
    using length_dropWhile_le [of "\<lambda>c. c \<noteq> CHR ''&''" query]
    by (cases query) (auto simp: Cut_def)
next
  case (3 query x key query')
  then show ?case
    using length_dropWhile_le [of "\<lambda>c. c \<noteq> CHR ''&''" query]
    by (cases query) (auto simp: Cut_def)
next
  case (4 query x key query')
  then show ?case
    using length_dropWhile_le [of "\<lambda>c. c \<noteq> CHR ''&''" query]
    by (cases query) (auto simp: Cut_def)
next
  case (5 query x key query' k)
  then show ?case
    using length_dropWhile_le [of "\<lambda>c. c \<noteq> CHR ''&''" query]
    by (cases query) (auto simp: Cut_def)
next
  case (6 query x key query' k v)
  then show ?case
    using length_dropWhile_le [of "\<lambda>c. c \<noteq> CHR ''&''" query]
    by (cases query) (auto simp: Cut_def)
qed

definition Query :: "URL \<Rightarrow> (string \<times> string) list" where
  "Query u = parseQuery (RawQuery u)"

definition Get :: "(string \<times> string) list \<Rightarrow> string \<Rightarrow> string" where
  "Get v key = (case map_of v key of None \<Rightarrow> [] | Some x \<Rightarrow> x)"

subsection \<open>Packages unicode/utf8 and encoding/json\<close>

text \<open>
  \<open>utf8.DecodeRuneInString\<close>: the rune at the head of the string and its width in
  bytes; \<open>(RuneError, 1)\<close> for a byte that starts no valid encoding and \<open>(RuneError, 0)\<close>
  for the empty string. The tables \<open>first\<close> and \<open>acceptRanges\<close> are written out: a
  lead byte below \<open>0xC2\<close> or above \<open>0xF4\<close> is invalid, the width follows from the
  lead byte, and the second byte is restricted after \<open>0xE0\<close>, \<open>0xED\<close>, \<open>0xF0\<close> and
  \<open>0xF4\<close>.
\<close>

definition RuneError :: nat where
  "RuneError = 0xFFFD"

definition DecodeRuneInString :: "string \<Rightarrow> nat \<times> nat" where
  "DecodeRuneInString s =
     (case map of_char s of
        [] \<Rightarrow> (RuneError, 0)
      | s0 # rest \<Rightarrow>
          if s0 < 0x80 then (s0, 1)
          else if s0 < 0xC2 \<or> 0xF4 < s0 then (RuneError, 1)
          else
            let sz = (if s0 < 0xE0 then 2 else if s0 < 0xF0 then 3 else 4);
                lo = (if s0 = 0xE0 then 0xA0 else if s0 = 0xF0 then 0x90 else 0x80);
                hi = (if s0 = 0xED then 0x9F else if s0 = 0xF4 then 0x8F else 0xBF)
            in
              if length s < sz then (RuneError, 1)
              else if rest ! 0 < lo \<or> hi < rest ! 0 then (RuneError, 1)
              else if sz \<le> 2 then (s0 mod 32 * 64 + rest ! 0 mod 64, 2)
              else if rest ! 1 < 0x80 \<or> 0xBF < rest ! 1 then (RuneError, 1)
              else if sz \<le> 3 then
                (s0 mod 16 * 4096 + rest ! 0 mod 64 * 64 + rest ! 1 mod 64, 3)
              else if rest ! 2 < 0x80 \<or> 0xBF < rest ! 2 then (RuneError, 1)
              else
                (s0 mod 8 * 262144 + rest ! 0 mod 64 * 4096 + rest ! 1 mod 64 * 64
                   + rest ! 2 mod 64, 4))"

text \<open>
  A Go string after \<open>json.Marshal\<close> and \<open>json.Unmarshal\<close>. The encoder copies ASCII
  bytes and valid encodings (escaped or not, the decoder gives them back) and writes
  the escape of U+FFFD for every byte at which \<open>DecodeRuneInString\<close> returns \<open>(RuneError, 1)\<close>;
  the decoder reads that escape as U+FFFD, the bytes \<open>EF BF BD\<close>.
\<close>

function json_string :: "string \<Rightarrow> string" where
  "json_string [] = []"
| "json_string (c # cs) =
     (if of_char c < (0x80 :: nat) then c # json_string cs
      else if DecodeRuneInString (c # cs) = (RuneError, 1) then
        [CHR 0xEF, CHR 0xBF, CHR 0xBD] @ json_string cs
      else
        c # take (snd (DecodeRuneInString (c # cs)) - 1) cs
          @ json_string (drop (snd (DecodeRuneInString (c # cs)) - 1) cs))"
  by pat_completeness auto
termination
  by (relation "measure length") auto

subsection \<open>Package encoding/hex\<close>

definition hextable :: string where
  "hextable = ''0123456789abcdef''"

definition hex_EncodeToString :: "string \<Rightarrow> string" where
  "hex_EncodeToString src =
     concat (map (\<lambda>v. [hextable ! (of_char v div 16), hextable ! (of_char v mod 16)]) src)"

section \<open>Data model (internal/config)\<close>

text \<open>Go's \<open>int64\<close> is a 64-bit word read as two's complement; \<open><s\<close> is its order.\<close>

type_synonym int64 = "64 word"

record tokens =
  AccessToken :: string
  RefreshToken :: string
  ExpiresAt :: int64
  TokenType :: string

record pending_auth =
  State :: string
  PA_RedirectURI :: string
  PA_ExpiresAt :: int64

record config =
  ClientID :: string
  ClientSecret :: string
  RedirectURI :: string
  Tokens :: tokens
  PendingAuth :: "pending_auth option"

text \<open>The zero values \<open>Tokens{}\<close> and \<open>Config{}\<close>.\<close>

definition zero_tokens :: tokens where
  "zero_tokens = \<lparr>AccessToken = [], RefreshToken = [], ExpiresAt = 0, TokenType = []\<rparr>"

definition zero_config :: config where
  "zero_config =
     \<lparr>ClientID = [], ClientSecret = [], RedirectURI = [], Tokens = zero_tokens,
      PendingAuth = None\<rparr>"

text \<open>The config that \<open>json.Unmarshal\<close> reads back from the text that
  \<open>json.MarshalIndent\<close> gives for a config: numbers, empty strings (omitted or not) and
  the presence of \<open>pending_auth\<close> are kept, every string goes through \<open>json_string\<close>.\<close>

definition json_tokens :: "tokens \<Rightarrow> tokens" where
  "json_tokens t =
     \<lparr>AccessToken = json_string (AccessToken t), RefreshToken = json_string (RefreshToken t),
      ExpiresAt = ExpiresAt t, TokenType = json_string (TokenType t)\<rparr>"

definition json_pending_auth :: "pending_auth \<Rightarrow> pending_auth" where
  "json_pending_auth p =
     \<lparr>State = json_string (State p), PA_RedirectURI = json_string (PA_RedirectURI p),
      PA_ExpiresAt = PA_ExpiresAt p\<rparr>"

definition json_config :: "config \<Rightarrow> config" where
  "json_config cfg =
     \<lparr>ClientID = json_string (ClientID cfg), ClientSecret = json_string (ClientSecret cfg),
      RedirectURI = json_string (RedirectURI cfg), Tokens = json_tokens (Tokens cfg),
      PendingAuth = map_option json_pending_auth (PendingAuth cfg)\<rparr>"

text \<open>Every error value the modelled functions build; a wrapped error (\<open>%w\<close>) is an
  argument of its wrapper.\<close>

datatype error =
    NotAuthenticated
  | RefreshTokenFailed error
  | TokenExchange error
  | PostFailed string
  | ReadResponse string
  | DecodeResponse
  | HTTPStatus int string
  | NoAccessToken
  | NoStateParameter
  | StateMismatch
  | NoAuthorizationCode string
  | LocateConfigDir string
  | CreateConfigDir string
  | WriteConfig string
  | ReadConfig string
  | ParseConfig
  | LoadConfig error
  | SaveConfig error
  | GenerateStateFailed string
  | SavePendingState error
  | NoPendingLogin
  | AuthURLExpired
  | ResetRequestBody string
  | RequestFailed string
  | RetriesExhausted int nat
  | FetchUpload error
  | ApiError int string
  | ParseResponse
  | UploadFailed string
  | UploadTimedOut

section \<open>The environment\<close>

text \<open>
  What the program does to the outside and what the outside answers is explicit state.
  The config directory holds at most the one file \<open>config.json\<close>. Its content is
  either the whole text that \<open>json.MarshalIndent\<close> gives for a config (\<open>Json\<close>) or a
  proper prefix of that text, possibly empty (\<open>Prefix\<close>), which \<open>json.Unmarshal\<close>
  rejects. A file written by hand that \<open>json.Unmarshal\<close> accepts reads as the text
  for the config it decodes to. Modes are permission bits (octal 600 is 384, octal 700 is
  448).
\<close>

datatype file_data = Json config | Prefix config

record stored_file =
  content :: file_data
  mode :: nat

record fs =
  config_dir :: "nat option"
  config_file :: "stored_file option"

datatype os_call = UserConfigDir | MkdirAll | OpenFile | Write | Close | ReadFile | RandRead

text \<open>The token endpoint's answer to \<open>http.PostForm\<close>: a transport error, a body that
  cannot be read, or a status with the body and what \<open>json.Unmarshal\<close> makes of it
  (\<open>None\<close> when it fails).\<close>

record tokenResponse =
  TR_AccessToken :: string
  TR_RefreshToken :: string
  TR_ExpiresAt :: int64
  TR_TokenType :: string
  Message :: string

datatype post_outcome =
    PostError string
  | ReadError string
  | Answered int string "tokenResponse option"

text \<open>What the base transport is handed on one attempt, and what it gives back.\<close>

record sent =
  Authorization :: string
  payload :: "string option"

record response =
  StatusCode :: int
  ResponseBody :: string

datatype base_outcome = NetworkError string | Responded response

text \<open>
  \<^item> \<open>unix_time n\<close> is what the \<open>n\<close>-th reading of \<open>time.Now().Unix()\<close> returns;
  \<^item> \<open>token_endpoint n form\<close> is the outcome of the \<open>n\<close>-th POST to the token URL, and
    \<open>token_posts\<close> lists the forms posted so far;
  \<^item> \<open>os_fault c\<close> is the error that system call \<open>c\<close> fails with, if it does (for
    \<open>ReadFile\<close> an error other than "file does not exist", which is how an absent file
    shows);
  \<^item> \<open>random\<close> is the stream of bytes that \<open>crypto/rand\<close> delivers and
    \<open>random_reads\<close> the number of bytes taken from it so far;
  \<^item> \<open>base n r\<close> is the outcome of the \<open>n\<close>-th request handed to the base transport,
    \<open>requests\<close> lists them, \<open>slept\<close> the durations passed to \<open>time.Sleep\<close>.
\<close>

record world =
  unix_time :: "nat \<Rightarrow> int64"
  time_reads :: nat
  token_endpoint :: "nat \<Rightarrow> (string \<times> string) list \<Rightarrow> post_outcome"
  token_posts :: "(string \<times> string) list list"
  os_fault :: "os_call \<Rightarrow> string option"
  random :: "nat \<Rightarrow> char"
  random_reads :: nat
  disk :: fs
  base :: "nat \<Rightarrow> sent \<Rightarrow> base_outcome"
  requests :: "sent list"
  slept :: "int64 list"

definition time_Now_Unix :: "world \<Rightarrow> int64 \<times> world" where
  "time_Now_Unix w = (unix_time w (time_reads w), w\<lparr>time_reads := Suc (time_reads w)\<rparr>)"

text \<open>\<open>rand.Read(b)\<close> for a slice of \<open>n\<close> bytes: it fails or fills the whole
  slice.\<close>

definition rand_Read :: "nat \<Rightarrow> world \<Rightarrow> (string + string) \<times> world" where
  "rand_Read n w =
     (case os_fault w RandRead of
        Some e \<Rightarrow> (Inl e, w)
      | None \<Rightarrow>
          (Inr (map (random w) [random_reads w ..< random_reads w + n]),
           w\<lparr>random_reads := random_reads w + n\<rparr>))"

section \<open>Credential store (internal/config)\<close>

text \<open>\<open>os.MkdirAll(dir, 0700)\<close> creates the directory when it is absent and leaves an
  existing one as it is.\<close>

definition os_MkdirAll :: "world \<Rightarrow> fs \<Rightarrow> nat \<Rightarrow> string + fs" where
  "os_MkdirAll w d perm =
     (case os_fault w MkdirAll of
        Some e \<Rightarrow> Inl e
      | None \<Rightarrow>
          (case config_dir d of
             None \<Rightarrow> Inr (d\<lparr>config_dir := Some perm\<rparr>)
           | Some m \<Rightarrow> Inr d))"

text \<open>
  \<open>os.WriteFile(path, data, perm)\<close> opens the file with \<open>O_WRONLY|O_CREATE|O_TRUNC\<close>,
  writes and closes: an existing file is emptied and keeps its mode, a new one is created
  empty with mode \<open>perm\<close> (the umask is taken not to clear owner bits); then the data are
  written. The result lists the states of the directory after each system call that
  changed it, and the error if any.
\<close>

definition os_WriteFile :: "world \<Rightarrow> fs \<Rightarrow> config \<Rightarrow> nat \<Rightarrow> fs list \<times> string option" where
  "os_WriteFile w d cfg perm =
     (case os_fault w OpenFile of
        Some e \<Rightarrow> ([], Some e)
      | None \<Rightarrow>
          let m = (case config_file d of None \<Rightarrow> perm | Some f \<Rightarrow> mode f);
              d1 = d\<lparr>config_file := Some \<lparr>content = Prefix cfg, mode = m\<rparr>\<rparr>
          in
            (case os_fault w Write of
               Some e \<Rightarrow> ([d1], Some e)
             | None \<Rightarrow>
                 let d2 = d1\<lparr>config_file := Some \<lparr>content = Json cfg, mode = m\<rparr>\<rparr> in
                 ([d1, d2], os_fault w Close)))"

text \<open>\<open>config.Save\<close>, as the states the directory goes through and the error returned.
  \<open>json.MarshalIndent\<close> cannot fail on a \<open>Config\<close>; the text it gives for
  \<open>cfg\<close> is \<open>Json cfg\<close>, and what \<open>Load\<close> reads back from that text is
  \<open>json_config cfg\<close>.\<close>

definition Save_trace :: "config \<Rightarrow> world \<Rightarrow> fs list \<times> error option" where
  "Save_trace cfg w =
     (case os_fault w UserConfigDir of
        Some e \<Rightarrow> ([], Some (LocateConfigDir e))
      | None \<Rightarrow>
          (case os_MkdirAll w (disk w) 448 of
             Inl e \<Rightarrow> ([], Some (CreateConfigDir e))
           | Inr d1 \<Rightarrow>
               (d1 # fst (os_WriteFile w d1 cfg 384),
                map_option WriteConfig (snd (os_WriteFile w d1 cfg 384)))))"

definition Save :: "config \<Rightarrow> world \<Rightarrow> error option \<times> world" where
  "Save cfg w =
     (snd (Save_trace cfg w), w\<lparr>disk := last (disk w # fst (Save_trace cfg w))\<rparr>)"

text \<open>\<open>config.Load\<close>: a missing file is the empty config, any other failure of
  \<open>os.ReadFile\<close> is an error, whether the file exists or not; what is read goes through
  \<open>json.Unmarshal\<close>.\<close>

definition Load :: "world \<Rightarrow> error + config" where
  "Load w =
     (case os_fault w UserConfigDir of
        Some e \<Rightarrow> Inl (LocateConfigDir e)
      | None \<Rightarrow>
          (case os_fault w ReadFile of
             Some e \<Rightarrow> Inl (ReadConfig e)
           | None \<Rightarrow>
               (case config_file (disk w) of
                  None \<Rightarrow> Inr zero_config
                | Some f \<Rightarrow>
                    (case content f of
                       Json cfg \<Rightarrow> Inr (json_config cfg)
                     | Prefix cfg \<Rightarrow> Inl ParseConfig))))"

section \<open>Token endpoint and token refresh (internal/auth)\<close>

text \<open>\<open>url.Values\<close> posted to the token endpoint, as the list of its pairs.\<close>

definition postToken :: "(string \<times> string) list \<Rightarrow> world \<Rightarrow> (error + tokens) \<times> world" where
  "postToken vals w =
     (let w1 = w\<lparr>token_posts := token_posts w @ [vals]\<rparr> in
      case token_endpoint w (length (token_posts w)) vals of
        PostError e \<Rightarrow> (Inl (PostFailed e), w1)
      | ReadError e \<Rightarrow> (Inl (ReadResponse e), w1)
      | Answered status body decoded \<Rightarrow>
          (case decoded of
             None \<Rightarrow> (Inl DecodeResponse, w1)
           | Some tr \<Rightarrow>
               if status \<noteq> 200 then
                 (if Message tr \<noteq> [] then (Inl (HTTPStatus status (Message tr)), w1)
                  else (Inl (HTTPStatus status (TrimSpace body)), w1))
               else if TR_AccessToken tr = [] then (Inl NoAccessToken, w1)
               else
                 (Inr \<lparr>AccessToken = TR_AccessToken tr, RefreshToken = TR_RefreshToken tr,
                       ExpiresAt = TR_ExpiresAt tr, TokenType = TR_TokenType tr\<rparr>, w1)))"

definition exchangeCode ::
  "string \<Rightarrow> string \<Rightarrow> string \<Rightarrow> string \<Rightarrow> world \<Rightarrow> (error + tokens) \<times> world" where
  "exchangeCode clientID clientSecret code redirectURI w =
     (case postToken
             [(''client_id'', clientID), (''client_secret'', clientSecret), (''code'', code),
              (''grant_type'', ''authorization_code''), (''redirect_uri'', redirectURI)] w of
        (Inl err, w1) \<Rightarrow> (Inl (TokenExchange err), w1)
      | (Inr toks, w1) \<Rightarrow> (Inr toks, w1))"

definition refreshTokens ::
  "string \<Rightarrow> string \<Rightarrow> string \<Rightarrow> world \<Rightarrow> (error + tokens) \<times> world" where
  "refreshTokens clientID clientSecret refreshToken w =
     postToken
       [(''client_id'', clientID), (''client_secret'', clientSecret),
        (''refresh_token'', refreshToken), (''grant_type'', ''refresh_token'')] w"

text \<open>\<open>RefreshIfExpired\<close> updates \<open>cfg\<close> in place: the model returns the error, the
  config as the caller sees it afterwards, and the environment.\<close>

definition RefreshIfExpired :: "config \<Rightarrow> world \<Rightarrow> error option \<times> config \<times> world" where
  "RefreshIfExpired cfg w =
     (if AccessToken (Tokens cfg) = [] then (Some NotAuthenticated, cfg, w)
      else
        let (now, w1) = time_Now_Unix w in
        if now + 30 <s ExpiresAt (Tokens cfg) then (None, cfg, w1)
        else
          (case refreshTokens (ClientID cfg) (ClientSecret cfg) (RefreshToken (Tokens cfg)) w1 of
             (Inl err, w2) \<Rightarrow> (Some (RefreshTokenFailed err), cfg, w2)
           | (Inr toks, w2) \<Rightarrow>
               (fst (Save (cfg\<lparr>Tokens := toks\<rparr>) w2), cfg\<lparr>Tokens := toks\<rparr>,
                snd (Save (cfg\<lparr>Tokens := toks\<rparr>) w2))))"

section \<open>Authorization flows (internal/auth)\<close>

definition extractCode :: "string \<Rightarrow> string" where
  "extractCode input =
     (if Contains input CHR ''?'' \<or> Contains input CHR ''&'' then
        (case url_Parse input of
           Some parsed \<Rightarrow>
             if Get (Query parsed) ''code'' \<noteq> [] then Get (Query parsed) ''code'' else input
         | None \<Rightarrow> input)
      else input)"

definition extractCodeAndState :: "string \<Rightarrow> string \<times> string" where
  "extractCodeAndState input0 =
     (let input = RemoveBackslashes (TrimSpace input0) in
      if Contains input CHR ''?'' \<or> Contains input CHR ''&'' then
        (case url_Parse input of
           Some parsed \<Rightarrow> (Get (Query parsed) ''code'', Get (Query parsed) ''state'')
         | None \<Rightarrow> (input, []))
      else (input, []))"

text \<open>\<open>loginManual\<close> after it has printed the authorization URL: \<open>line\<close> is the line
  the scanner reads from standard input (empty at end of input).\<close>

definition loginManual ::
  "string \<Rightarrow> string \<Rightarrow> string \<Rightarrow> string \<Rightarrow> world \<Rightarrow> (error + tokens) \<times> world" where
  "loginManual clientID clientSecret redirectURI line w =
     (let pasted = TrimSpace line; code = extractCode pasted in
      if code = [] then (Inl (NoAuthorizationCode pasted), w)
      else exchangeCode clientID clientSecret code redirectURI w)"

definition CompleteRemoteLogin ::
  "string \<Rightarrow> string \<Rightarrow> string \<Rightarrow> string \<Rightarrow> string \<Rightarrow> world \<Rightarrow> (error + tokens) \<times> world"
  where
  "CompleteRemoteLogin clientID clientSecret redirectURI expectedState pastedInput w =
     (let (code, gotState) = extractCodeAndState pastedInput;
          after_state_check =
            (if code = [] then (Inl (NoAuthorizationCode pastedInput), w)
             else exchangeCode clientID clientSecret code redirectURI w)
      in
        if expectedState \<noteq> [] then
          (if gotState = [] then (Inl NoStateParameter, w)
           else if gotState \<noteq> expectedState then (Inl StateMismatch, w)
           else after_state_check)
        else after_state_check)"

text \<open>\<open>GenerateState\<close>: 16 random bytes in hexadecimal.\<close>

definition GenerateState :: "world \<Rightarrow> (error + string) \<times> world" where
  "GenerateState w =
     (case rand_Read 16 w of
        (Inl e, w1) \<Rightarrow> (Inl (GenerateStateFailed e), w1)
      | (Inr b, w1) \<Rightarrow> (Inr (hex_EncodeToString b), w1))"

section \<open>The two steps of the remote login (cmd/auth.go)\<close>

text \<open>
  \<open>startRemoteLogin\<close>, step 1: the state is generated and stored with the redirect URI
  and an expiry ten minutes ahead (\<open>time.Now().Add(10 * time.Minute).Unix()\<close>, the clock
  reading plus 600). The authorization URL is only printed and is left out. The result is
  the error, the config in memory and the environment.
\<close>

definition startRemoteLogin :: "config \<Rightarrow> world \<Rightarrow> error option \<times> config \<times> world" where
  "startRemoteLogin cfg w =
     (case GenerateState w of
        (Inl err, w1) \<Rightarrow> (Some err, cfg, w1)
      | (Inr state, w1) \<Rightarrow>
          let redirectURI = (if RedirectURI cfg = [] then ''http://localhost:8089/callback''
                             else RedirectURI cfg);
              (now, w2) = time_Now_Unix w1;
              cfg1 = cfg\<lparr>PendingAuth :=
                       Some \<lparr>State = state, PA_RedirectURI = redirectURI,
                             PA_ExpiresAt = now + 600\<rparr>\<rparr>
          in (map_option SavePendingState (fst (Save cfg1 w2)), cfg1, snd (Save cfg1 w2)))"

text \<open>\<open>completeRemoteLogin\<close>, step 2, with the flag \<open>--auth-url\<close> as the argument
  \<open>authPasteURL\<close>. The result is the error, the config in memory and the environment.\<close>

definition completeRemoteLogin ::
  "string \<Rightarrow> config \<Rightarrow> world \<Rightarrow> error option \<times> config \<times> world" where
  "completeRemoteLogin authPasteURL cfg w =
     (case PendingAuth cfg of
        None \<Rightarrow> (Some NoPendingLogin, cfg, w)
      | Some pending \<Rightarrow>
          let (now, w1) = time_Now_Unix w in
          if PA_ExpiresAt pending <s now then
            (Some AuthURLExpired, cfg\<lparr>PendingAuth := None\<rparr>,
             snd (Save (cfg\<lparr>PendingAuth := None\<rparr>) w1))
          else
            (case CompleteRemoteLogin (ClientID cfg) (ClientSecret cfg) (PA_RedirectURI pending)
                    (State pending) authPasteURL w1 of
               (Inl err, w2) \<Rightarrow> (Some err, cfg, w2)
             | (Inr toks, w2) \<Rightarrow>
                 (map_option SaveConfig (fst (Save (cfg\<lparr>Tokens := toks, PendingAuth := None\<rparr>) w2)),
                  cfg\<lparr>Tokens := toks, PendingAuth := None\<rparr>,
                  snd (Save (cfg\<lparr>Tokens := toks, PendingAuth := None\<rparr>) w2))))"

text \<open>\<open>runAuthLogin\<close> when \<open>--auth-url\<close> is given (a non-empty \<open>authPasteURL\<close>): the
  config is loaded from disk and step 2 runs on it. The other branches of the command are
  the other login flows.\<close>

definition runAuthLogin :: "string \<Rightarrow> world \<Rightarrow> error option \<times> world" where
  "runAuthLogin authPasteURL w =
     (case Load w of
        Inl err \<Rightarrow> (Some (LoadConfig err), w)
      | Inr cfg \<Rightarrow>
          (fst (completeRemoteLogin authPasteURL cfg w),
           snd (snd (completeRemoteLogin authPasteURL cfg w))))"

section \<open>Resilient transport (internal/client/transport.go)\<close>

text \<open>
  An outbound request. \<open>Body\<close> is what the stream \<open>req.Body\<close> yields when read
  (\<open>None\<close> for a request without body); \<open>GetBody\<close> is the optional function that makes
  a fresh copy of the body, whose \<open>k\<close>-th call returns an error (\<open>Inl\<close>) or the bytes
  of the new stream.
\<close>

record request =
  Method :: string
  Body :: "string option"
  GetBody :: "(nat \<Rightarrow> string + string) option"





definition maxRetries :: nat where
  "maxRetries = 3"

text \<open>
  One iteration of the loop of \<open>RoundTrip\<close>. \<open>req.Clone\<close> copies the request
  shallowly, so the clone shares the stream \<open>req.Body\<close>: \<open>stream\<close> is what that stream
  still yields, and the base transport reads the body it is handed to the end (the source:
  bodies "are consumed on the first attempt"). The iteration either returns (\<open>Inl\<close>, with
  the pair \<open>(resp, err)\<close>, the config and the environment) or continues (\<open>Inr\<close>, with
  the stream, the response just received, the config and the environment).
\<close>

definition attempt_body ::
  "int64 \<Rightarrow> request \<Rightarrow> nat \<Rightarrow> string option \<Rightarrow> config \<Rightarrow> world
     \<Rightarrow> ((response option \<times> error option) \<times> config \<times> world)
        + (string option \<times> response \<times> config \<times> world)" where
  "attempt_body baseBackoff req attempt stream cfg w =
     (case (if 0 < attempt
            then RefreshIfExpired cfg
                   (w\<lparr>slept := slept w @ [2 ^ (attempt - 1) * baseBackoff]\<rparr>)
            else (None, cfg, w)) of
        (Some rerr, cfg1, w1) \<Rightarrow> Inl ((None, Some rerr), cfg1, w1)
      | (None, cfg1, w1) \<Rightarrow>
          (case (case (if 0 < attempt then GetBody req else None) of
                   Some getBody \<Rightarrow> map_sum id Some (getBody (attempt - 1))
                 | None \<Rightarrow> Inr stream) of
             Inl gbErr \<Rightarrow> Inl ((None, Some (ResetRequestBody gbErr)), cfg1, w1)
           | Inr body \<Rightarrow>
               let cloned = \<lparr>Authorization = ''Bearer '' @ AccessToken (Tokens cfg1),
                             payload = body\<rparr>;
                   w2 = w1\<lparr>requests := requests w1 @ [cloned]\<rparr>;
                   stream' = (case (if 0 < attempt then GetBody req else None) of
                                Some getBody \<Rightarrow> stream
                              | None \<Rightarrow> map_option (\<lambda>b. []) stream)
               in
                 (case base w1 (length (requests w1)) cloned of
                    NetworkError e \<Rightarrow> Inl ((None, Some (RequestFailed e)), cfg1, w2)
                  | Responded r \<Rightarrow>
                      if StatusCode r = 429 \<or> 500 \<le> StatusCode r then
                        (if attempt = maxRetries
                         then Inl ((None, Some (RetriesExhausted (StatusCode r) maxRetries)),
                                   cfg1, w2)
                         else Inr (stream', r, cfg1, w2))
                      else Inl ((Some r, None), cfg1, w2))))"

text \<open>The loop \<open>for attempt := 0; attempt <= maxRetries; attempt++\<close> from \<open>attempt\<close>
  on; \<open>resp\<close> is the variable of that name, returned by the statement after the loop.\<close>

function attempts ::
  "int64 \<Rightarrow> request \<Rightarrow> nat \<Rightarrow> string option \<Rightarrow> response option \<Rightarrow> config \<Rightarrow> world
     \<Rightarrow> (response option \<times> error option) \<times> config \<times> world" where
  "attempts baseBackoff req attempt stream resp cfg w =
     (if attempt \<le> maxRetries then
        (case attempt_body baseBackoff req attempt stream cfg w of
           Inl returned \<Rightarrow> returned
         | Inr (stream', r, cfg1, w2) \<Rightarrow>
             attempts baseBackoff req (attempt + 1) stream' (Some r) cfg1 w2)
      else ((resp, None), cfg, w))"
  by pat_completeness auto
termination
  by (relation "measure (\<lambda>(b, r, attempt, s). Suc maxRetries - attempt)") auto

definition RoundTrip ::
  "int64 \<Rightarrow> request \<Rightarrow> config \<Rightarrow> world
     \<Rightarrow> (response option \<times> error option) \<times> config \<times> world" where
  "RoundTrip baseBackoff req cfg w =
     (case RefreshIfExpired cfg w of
        (Some err, cfg1, w1) \<Rightarrow> ((None, Some err), cfg1, w1)
      | (None, cfg1, w1) \<Rightarrow> attempts baseBackoff req 0 (Body req) None cfg1 w1)"

section \<open>Upload poller (cmd/uploads.go)\<close>

record uploadStatus =
  ID :: int64
  IDStr :: string
  ExternalID :: "string option"
  Error :: "string option"
  Status :: string
  ActivityID :: "int64 option"

text \<open>\<open>htmlTagRE.ReplaceAllString(s, "")\<close> for the expression \<open><[^>]+>\<close>: a match
  starts at a \<open><\<close> that is followed by at least one byte other than \<open>>\<close> and then by
  a \<open>>\<close>.\<close>

function removeTags :: "string \<Rightarrow> string" where
  "removeTags [] = []"
| "removeTags (c # s) =
     (if c = CHR ''<'' \<and> takeWhile (\<lambda>x. x \<noteq> CHR ''>'') s \<noteq> []
           \<and> dropWhile (\<lambda>x. x \<noteq> CHR ''>'') s \<noteq> []
      then removeTags (drop 1 (dropWhile (\<lambda>x. x \<noteq> CHR ''>'') s))
      else c # removeTags s)"
  by pat_completeness auto
termination
proof (relation "measure length")
  show "wf (measure length)"
    by simp
next
  fix c :: char and s :: string
  have "length (dropWhile (\<lambda>x. x \<noteq> CHR ''>'') s) \<le> length s"
    by (rule length_dropWhile_le)
  then show "(drop 1 (dropWhile (\<lambda>x. x \<noteq> CHR ''>'') s), c # s) \<in> measure length"
    by simp
next
  fix c :: char and s :: string
  show "(s, c # s) \<in> measure length"
    by simp
qed

definition stripHTML :: "string \<Rightarrow> string" where
  "stripHTML s = TrimSpace (removeTags s)"

text \<open>\<open>apiError\<close>: the status and the text shown after it (the hint is a function of the
  status alone).\<close>

definition apiError :: "int \<Rightarrow> string \<Rightarrow> error" where
  "apiError status body =
     (if 0 < length body \<and> length body < 400 then ApiError status (stripHTML body)
      else ApiError status [])"

text \<open>What \<open>httpClient.Do\<close> gives for one status request: an error, or a status with the
  raw body and the upload that \<open>json.Unmarshal\<close> reads from it (\<open>None\<close> when it fails).\<close>

datatype do_outcome = DoFailed error | DoResponded int string "uploadStatus option"

definition fetchUploadStatus :: "do_outcome \<Rightarrow> error + uploadStatus \<times> string" where
  "fetchUploadStatus out =
     (case out of
        DoFailed err \<Rightarrow> Inl (FetchUpload err)
      | DoResponded status raw decoded \<Rightarrow>
          if status \<noteq> 200 then Inl (apiError status raw)
          else (case decoded of None \<Rightarrow> Inl ParseResponse | Some u \<Rightarrow> Inr (u, raw)))"

text \<open>
  One iteration of the loop of \<open>pollUpload\<close>, as the environment decides it: whether the
  \<open>select\<close> takes the case of the cancelled context (with \<open>ctx.Err()\<close>), and otherwise
  what the fetch gives and how long it takes. Times are nanoseconds since \<open>pollUpload\<close>
  read the clock for its deadline; the ticker is taken to start at that instant.
\<close>

record tick =
  ctx_done :: "string option"
  outcome :: do_outcome
  latency :: nat

definition pollInterval :: nat where
  "pollInterval = 3 * 10 ^ 9"

definition timeout :: nat where
  "timeout = 300 * 10 ^ 9"

text \<open>
  A ticker of period \<open>pollInterval\<close> fires at the multiples of the period, the first one
  period after its start, and keeps at most one tick for a receiver that is not ready.
  \<open>tick_received prev ready\<close> is the time at which a receiver gets its next tick when it
  got the previous one at \<open>prev\<close> and waits again from \<open>ready\<close> on: at once if the ticker
  has fired in between, at the next firing otherwise.
\<close>

definition tick_received :: "nat \<Rightarrow> nat \<Rightarrow> nat" where
  "tick_received prev ready =
     (if prev div pollInterval < ready div pollInterval then ready
      else (ready div pollInterval + 1) * pollInterval)"

text \<open>What \<open>pollUpload\<close> writes to standard output before it returns.\<close>

datatype printed = Nothing | RawJSON string | StatusSummary uploadStatus

text \<open>The run ends cancelled, or it returns an error or \<open>nil\<close> after a fetch, at the
  time the fetch (and the reading of the clock that follows it) completed.\<close>

datatype poll_result = Cancelled string | Returned "error option" printed nat

text \<open>The loop: \<open>None\<close> when the listed iterations are used up and the loop is still
  polling.\<close>

fun poll_loop :: "bool \<Rightarrow> nat \<Rightarrow> nat \<Rightarrow> nat \<Rightarrow> tick list \<Rightarrow> poll_result option" where
  "poll_loop jsonOutput deadline prev ready [] = None"
| "poll_loop jsonOutput deadline prev ready (t # ts) =
     (case ctx_done t of
        Some e \<Rightarrow> Some (Cancelled e)
      | None \<Rightarrow>
          let at = tick_received prev ready; now = at + latency t in
          (case fetchUploadStatus (outcome t) of
             Inl err \<Rightarrow> Some (Returned (Some err) Nothing now)
           | Inr (u, raw) \<Rightarrow>
               (case Error u of
                  Some e \<Rightarrow>
                    Some (Returned (Some (UploadFailed (stripHTML e)))
                            (if jsonOutput then RawJSON raw else StatusSummary u) now)
                | None \<Rightarrow>
                    (case ActivityID u of
                       Some a \<Rightarrow>
                         Some (Returned None
                                 (if jsonOutput then RawJSON raw else StatusSummary u) now)
                     | None \<Rightarrow>
                         if deadline < now then Some (Returned (Some UploadTimedOut) Nothing now)
                         else poll_loop jsonOutput deadline at now ts))))"

definition pollUpload :: "bool \<Rightarrow> tick list \<Rightarrow> poll_result option" where
  "pollUpload jsonOutput ticks = poll_loop jsonOutput timeout 0 0 ticks"

section \<open>Notions used in the statements\<close>

text \<open>The token needs no refresh at any time the clock is read; the base transport
  answers the next requests, whatever they are, with the listed responses; the body of the
  request can be made afresh without error.\<close>

definition token_is_fresh :: "config \<Rightarrow> world \<Rightarrow> bool" where
  "token_is_fresh cfg w =
     (AccessToken (Tokens cfg) \<noteq> [] \<and> (\<forall>n. unix_time w n + 30 <s ExpiresAt (Tokens cfg)))"

definition answers :: "world \<Rightarrow> response list \<Rightarrow> bool" where
  "answers w rs =
     (\<forall>i < length rs. \<forall>c. base w (length (requests w) + i) c = Responded (rs ! i))"

definition body_resets :: "request \<Rightarrow> bool" where
  "body_resets req =
     (case GetBody req of None \<Rightarrow> True | Some getBody \<Rightarrow> \<forall>k. \<exists>b. getBody k = Inr b)"


text \<open>The forms that \<open>refreshTokens\<close> and \<open>exchangeCode\<close> post.\<close>

definition refresh_grant :: "config \<Rightarrow> (string \<times> string) list" where
  "refresh_grant cfg =
     [(''client_id'', ClientID cfg), (''client_secret'', ClientSecret cfg),
      (''refresh_token'', RefreshToken (Tokens cfg)), (''grant_type'', ''refresh_token'')]"

definition authorization_code_grant ::
  "string \<Rightarrow> string \<Rightarrow> string \<Rightarrow> string \<Rightarrow> (string \<times> string) list" where
  "authorization_code_grant clientID clientSecret code redirectURI =
     [(''client_id'', clientID), (''client_secret'', clientSecret), (''code'', code),
      (''grant_type'', ''authorization_code''), (''redirect_uri'', redirectURI)]"

text \<open>A tick at which the job is seen pending: the context is not done and the fetch
  returns an upload with neither error nor activity id.\<close>

definition still_pending :: "tick \<Rightarrow> bool" where
  "still_pending t =
     (ctx_done t = None \<and>
      (case fetchUploadStatus (outcome t) of
         Inl err \<Rightarrow> False
       | Inr (u, raw) \<Rightarrow> Error u = None \<and> ActivityID u = None))"

section \<open>Example environments\<close>

text \<open>An environment in which nothing answers and no system call fails: the clock
  stands at 1000, every random byte is \<open>A7\<close>, the config directory does not exist.\<close>

definition quiet_world :: world where
  "quiet_world =
     \<lparr>unix_time = (\<lambda>n. 1000), time_reads = 0,
      token_endpoint = (\<lambda>n form. PostError ''connection refused''), token_posts = [],
      os_fault = (\<lambda>c. None), random = (\<lambda>n. CHR 0xA7), random_reads = 0,
      disk = \<lparr>config_dir = None, config_file = None\<rparr>,
      base = (\<lambda>n r. NetworkError ''connection refused''), requests = [], slept = []\<rparr>"

text \<open>A server that answers the \<open>n\<close>-th request with the \<open>n\<close>-th status of a list, as
  the handlers of \<open>transport_test.go\<close> do, and \<open>freshConfig\<close> of that file (the token
  expires in one hour).\<close>

definition reply :: "int \<Rightarrow> response" where
  "reply status = \<lparr>StatusCode = status, ResponseBody = []\<rparr>"

definition serving :: "int list \<Rightarrow> world" where
  "serving statuses =
     quiet_world
       \<lparr>base := (\<lambda>n r. if n < length statuses then Responded (reply (statuses ! n))
                        else NetworkError ''connection refused'')\<rparr>"

definition freshConfig :: config where
  "freshConfig =
     \<lparr>ClientID = ''test-id'', ClientSecret = ''test-secret'', RedirectURI = [],
      Tokens = \<lparr>AccessToken = ''test-access'', RefreshToken = ''test-refresh'',
                ExpiresAt = 4600, TokenType = []\<rparr>,
      PendingAuth = None\<rparr>"

definition get_request :: request where
  "get_request = \<lparr>Method = ''GET'', Body = None, GetBody = None\<rparr>"

text \<open>A config whose token expired ten minutes ago, and a token endpoint that answers
  every grant with new tokens (\<open>TestRefreshIfExpired_Expired\<close>).\<close>

definition expiredConfig :: config where
  "expiredConfig =
     \<lparr>ClientID = ''cid'', ClientSecret = ''csecret'', RedirectURI = [],
      Tokens = \<lparr>AccessToken = ''expired-token'', RefreshToken = ''old-refresh'',
                ExpiresAt = 400, TokenType = []\<rparr>,
      PendingAuth = None\<rparr>"

definition newTokens :: tokenResponse where
  "newTokens =
     \<lparr>TR_AccessToken = ''new-access-token'', TR_RefreshToken = ''new-refresh-token'',
      TR_ExpiresAt = 22600, TR_TokenType = ''Bearer'', Message = []\<rparr>"

definition token_server :: world where
  "token_server =
     quiet_world\<lparr>token_endpoint := (\<lambda>n form. Answered 200 ''{...}'' (Some newTokens))\<rparr>"

text \<open>A config with the credentials of the application and nothing else, as step 1 of the
  remote login finds it.\<close>

definition registered :: config where
  "registered =
     \<lparr>ClientID = ''cid'', ClientSecret = ''csecret'', RedirectURI = [], Tokens = zero_tokens,
      PendingAuth = None\<rparr>"

text \<open>A config as step 1 of the remote login leaves it, ten minutes before the pending
  login expires; the environment whose disk holds a given config in \<open>config.json\<close>;
  a pasted redirect with code and state, one without \<open>state\<close> parameter, and one
  without \<open>code\<close> parameter (the input of \<open>TestExtractCode_URLNoCode\<close>).\<close>

definition pendingConfig :: "string \<Rightarrow> config" where
  "pendingConfig state =
     \<lparr>ClientID = ''cid'', ClientSecret = ''csecret'', RedirectURI = [], Tokens = zero_tokens,
      PendingAuth = Some \<lparr>State = state, PA_RedirectURI = ''http://localhost:8089/callback'',
                          PA_ExpiresAt = 1600\<rparr>\<rparr>"

definition stored :: "config \<Rightarrow> world" where
  "stored cfg =
     token_server
       \<lparr>disk := \<lparr>config_dir = Some 448,
                  config_file = Some \<lparr>content = Json cfg, mode = 384\<rparr>\<rparr>\<rparr>"

definition pastedURL :: string where
  "pastedURL = ''http://localhost:8089/callback?code=abc&state=xyz''"

definition pastedWithoutState :: string where
  "pastedWithoutState = ''http://localhost:8089/callback?code=abc''"

definition redirectWithoutCode :: string where
  "redirectWithoutCode = ''https://example.com/callback?error=access_denied''"

text \<open>The environment \<open>stored cfg\<close> with a disk that is full: every write
  fails.\<close>

definition write_fails :: "config \<Rightarrow> world" where
  "write_fails cfg =
     (stored cfg)
       \<lparr>os_fault := (\<lambda>c. if c = Write then Some ''no space left on device'' else None)\<rparr>"

text \<open>An upload while it is processed and when it is done, and a tick at which the fetch
  returns a given upload at once.\<close>

definition processing :: uploadStatus where
  "processing =
     \<lparr>ID = 42, IDStr = ''42'', ExternalID = None, Error = None,
      Status = ''Your activity is still being processed.'', ActivityID = None\<rparr>"

definition ready555 :: uploadStatus where
  "ready555 =
     \<lparr>ID = 42, IDStr = ''42'', ExternalID = None, Error = None,
      Status = ''Your activity is ready.'', ActivityID = Some 555\<rparr>"

definition fetched :: "uploadStatus \<Rightarrow> tick" where
  "fetched u = \<lparr>ctx_done = None, outcome = DoResponded 200 ''{...}'' (Some u), latency = 0\<rparr>"

section \<open>Properties of the resilient transport\<close>

declare attempts.simps [simp del]

lemma postToken_frame:
  "requests (snd (postToken vals w)) = requests w"
  "base (snd (postToken vals w)) = base w"
  "unix_time (snd (postToken vals w)) = unix_time w"
  "disk (snd (postToken vals w)) = disk w"
  "os_fault (snd (postToken vals w)) = os_fault w"
  "token_posts (snd (postToken vals w)) = token_posts w @ [vals]"
  by (simp_all add: postToken_def Let_def split: post_outcome.split option.split)

lemma Save_frame:
  "requests (snd (Save cfg w)) = requests w"
  "base (snd (Save cfg w)) = base w"
  "unix_time (snd (Save cfg w)) = unix_time w"
  "token_posts (snd (Save cfg w)) = token_posts w"
  by (simp_all add: Save_def)

lemma RefreshIfExpired_frame:
  "requests (snd (snd (RefreshIfExpired cfg w))) = requests w"
  "base (snd (snd (RefreshIfExpired cfg w))) = base w"
  "unix_time (snd (snd (RefreshIfExpired cfg w))) = unix_time w"
  by (simp_all add: RefreshIfExpired_def refreshTokens_def time_Now_Unix_def Let_def split_beta
        Save_frame postToken_frame split: sum.split)

lemma RefreshIfExpired_sndD:
  assumes "snd (RefreshIfExpired cfg w) = (cfg', w')"
  shows "requests w' = requests w \<and> base w' = base w"
  using RefreshIfExpired_frame(1,2) [of cfg w] assms by simp

lemma attempt_body_Inl:
  assumes "attempt_body b req attempt stream cfg w = Inl (res, cfg', w')"
  shows "base w' = base w \<and> (\<exists>new. requests w' = requests w @ new \<and> length new \<le> 1)"
  using assms
  by (auto simp: attempt_body_def Let_def split_beta RefreshIfExpired_frame
      dest!: RefreshIfExpired_sndD
      split: option.splits sum.splits base_outcome.splits if_splits)

lemma attempt_body_Inr:
  assumes "attempt_body b req attempt stream cfg w = Inr (stream', r, cfg', w')"
  shows "base w' = base w"
    and "\<exists>c. requests w' = requests w @ [c] \<and> base w (length (requests w)) c = Responded r"
    and "StatusCode r = 429 \<or> 500 \<le> StatusCode r"
    and "attempt \<noteq> maxRetries"
  using assms
  by (auto simp: attempt_body_def Let_def split_beta RefreshIfExpired_frame
      dest!: RefreshIfExpired_sndD
      split: option.splits sum.splits base_outcome.splits if_splits)

lemma attempts_trace:
  assumes "attempts b req attempt stream resp cfg w = (res, cfg', w')"
  shows "base w' = base w \<and>
         (\<exists>new. requests w' = requests w @ new \<and> length new \<le> Suc maxRetries - attempt \<and>
            (\<forall>j. Suc j < length new \<longrightarrow>
               (\<exists>r. base w (length (requests w) + j) (new ! j) = Responded r \<and>
                    (StatusCode r = 429 \<or> 500 \<le> StatusCode r))))"
  using assms
proof (induction b req attempt stream resp cfg w rule: attempts.induct)
  case (1 b req attempt stream resp cfg w)
  show ?case
  proof (cases "attempt \<le> maxRetries")
    case False
    with "1.prems" have "w' = w"
      by (simp add: attempts.simps)
    then show ?thesis
      by simp
  next
    case le: True
    show ?thesis
    proof (cases "attempt_body b req attempt stream cfg w")
      case (Inl returned)
      with le "1.prems" have "attempt_body b req attempt stream cfg w = Inl (res, cfg', w')"
        by (simp add: attempts.simps)
      from attempt_body_Inl [OF this] le show ?thesis
        by auto
    next
      case (Inr cont)
      obtain stream' r cfg1 w2 where cont: "cont = (stream', r, cfg1, w2)"
        by (cases cont) auto
      note body = Inr [unfolded cont]
      from le "1.prems" body
      have run: "attempts b req (attempt + 1) stream' (Some r) cfg1 w2 = (res, cfg', w')"
        by (simp add: attempts.simps)
      from "1.IH" [OF le body refl refl refl run]
      obtain new2 where base': "base w' = base w2"
        and new2: "requests w' = requests w2 @ new2"
        and len2: "length new2 \<le> Suc maxRetries - (attempt + 1)"
        and ret2: "\<And>j. Suc j < length new2 \<Longrightarrow>
               \<exists>r. base w2 (length (requests w2) + j) (new2 ! j) = Responded r \<and>
                    (StatusCode r = 429 \<or> 500 \<le> StatusCode r)"
        by blast
      from attempt_body_Inr [OF body]
      obtain c where b2: "base w2 = base w" and c: "requests w2 = requests w @ [c]"
        and rc: "base w (length (requests w)) c = Responded r"
        and st: "StatusCode r = 429 \<or> 500 \<le> StatusCode r" and ne: "attempt \<noteq> maxRetries"
        by blast
      have A: "requests w' = requests w @ (c # new2)"
        using new2 c by simp
      have B: "length (c # new2) \<le> Suc maxRetries - attempt"
        using len2 le ne by simp
      have C: "\<exists>r. base w (length (requests w) + j) ((c # new2) ! j) = Responded r \<and>
                    (StatusCode r = 429 \<or> 500 \<le> StatusCode r)"
        if "Suc j < length (c # new2)" for j
      proof (cases j)
        case 0
        with rc st show ?thesis
          by auto
      next
        case (Suc j')
        with that have "Suc j' < length new2"
          by simp
        from ret2 [OF this] Suc b2 c show ?thesis
          by simp
      qed
      have "\<exists>new. requests w' = requests w @ new \<and> length new \<le> Suc maxRetries - attempt \<and>
            (\<forall>j. Suc j < length new \<longrightarrow>
               (\<exists>r. base w (length (requests w) + j) (new ! j) = Responded r \<and>
                    (StatusCode r = 429 \<or> 500 \<le> StatusCode r)))"
      proof (rule exI [of _ "c # new2"], intro conjI allI impI)
        show "requests w' = requests w @ (c # new2)"
          by (fact A)
        show "length (c # new2) \<le> Suc maxRetries - attempt"
          by (fact B)
        fix j
        assume "Suc j < length (c # new2)"
        then show "\<exists>r. base w (length (requests w) + j) ((c # new2) ! j) = Responded r \<and>
                    (StatusCode r = 429 \<or> 500 \<le> StatusCode r)"
          by (rule C)
      qed
      with base' b2 show ?thesis
        by simp
    qed
  qed
qed

lemma RefreshIfExpired_fresh:
  assumes "token_is_fresh cfg w"
  shows "RefreshIfExpired cfg w = (None, cfg, w\<lparr>time_reads := Suc (time_reads w)\<rparr>)"
  using assms by (simp add: token_is_fresh_def RefreshIfExpired_def time_Now_Unix_def)

lemma token_is_fresh_frame:
  assumes "token_is_fresh cfg w" and "unix_time w' = unix_time w"
  shows "token_is_fresh cfg w'"
  using assms by (simp add: token_is_fresh_def)

lemma attempt_body_fresh:
  assumes fresh: "token_is_fresh cfg w" and resets: "body_resets req"
    and reply: "\<forall>c. base w (length (requests w)) c = Responded r"
  shows "\<exists>s' w2. unix_time w2 = unix_time w \<and> base w2 = base w \<and>
           length (requests w2) = Suc (length (requests w)) \<and>
           attempt_body b req attempt s cfg w =
             (if StatusCode r = 429 \<or> 500 \<le> StatusCode r then
                (if attempt = maxRetries
                 then Inl ((None, Some (RetriesExhausted (StatusCode r) maxRetries)), cfg, w2)
                 else Inr (s', r, cfg, w2))
              else Inl ((Some r, None), cfg, w2))"
proof (cases "0 < attempt")
  case False
  with reply show ?thesis
    by (simp add: attempt_body_def Let_def)
next
  case True
  let ?w0 = "w\<lparr>slept := slept w @ [2 ^ (attempt - 1) * b]\<rparr>"
  have "token_is_fresh cfg ?w0"
    using fresh by (rule token_is_fresh_frame) simp
  then have r: "RefreshIfExpired cfg ?w0 = (None, cfg, ?w0\<lparr>time_reads := Suc (time_reads ?w0)\<rparr>)"
    by (rule RefreshIfExpired_fresh)
  show ?thesis
  proof (cases "GetBody req")
    case None
    with True r reply show ?thesis
      by (simp add: attempt_body_def Let_def)
  next
    case (Some getBody)
    with resets obtain body where "getBody (attempt - 1) = Inr body"
      by (auto simp: body_resets_def)
    with Some True r reply show ?thesis
      by (simp add: attempt_body_def Let_def)
  qed
qed

lemma attempts_retry:
  assumes "token_is_fresh cfg w" and "body_resets req"
    and "\<forall>c. base w (length (requests w)) c = Responded r"
    and "StatusCode r = 429 \<or> 500 \<le> StatusCode r" and "attempt < maxRetries"
  shows "\<exists>s' w2. token_is_fresh cfg w2 \<and> base w2 = base w \<and>
           length (requests w2) = Suc (length (requests w)) \<and>
           attempts b req attempt s resp cfg w = attempts b req (Suc attempt) s' (Some r) cfg w2"
proof -
  from attempt_body_fresh [OF assms(1-3), of b attempt s] assms(4,5)
  obtain s' w2 where "unix_time w2 = unix_time w" and "base w2 = base w"
    and "length (requests w2) = Suc (length (requests w))"
    and "attempt_body b req attempt s cfg w = Inr (s', r, cfg, w2)"
    by auto
  moreover from this assms(5)
  have "attempts b req attempt s resp cfg w = attempts b req (Suc attempt) s' (Some r) cfg w2"
    by (subst attempts.simps) simp
  moreover have "token_is_fresh cfg w2"
    using assms(1) \<open>unix_time w2 = unix_time w\<close> by (rule token_is_fresh_frame)
  ultimately show ?thesis
    by blast
qed

lemma attempts_success:
  assumes "token_is_fresh cfg w" and "body_resets req"
    and "\<forall>c. base w (length (requests w)) c = Responded r"
    and "\<not> (StatusCode r = 429 \<or> 500 \<le> StatusCode r)" and "attempt \<le> maxRetries"
  shows "\<exists>w2. length (requests w2) = Suc (length (requests w)) \<and>
           attempts b req attempt s resp cfg w = ((Some r, None), cfg, w2)"
proof -
  from attempt_body_fresh [OF assms(1-3), of b attempt s] assms(4)
  obtain w2 where "length (requests w2) = Suc (length (requests w))"
    and "attempt_body b req attempt s cfg w = Inl ((Some r, None), cfg, w2)"
    by auto
  moreover from this assms(5)
  have "attempts b req attempt s resp cfg w = ((Some r, None), cfg, w2)"
    by (subst attempts.simps) simp
  ultimately show ?thesis
    by blast
qed

lemma attempts_exhausted:
  assumes "token_is_fresh cfg w" and "body_resets req"
    and "\<forall>c. base w (length (requests w)) c = Responded r"
    and "StatusCode r = 429 \<or> 500 \<le> StatusCode r"
  shows "\<exists>w2. length (requests w2) = Suc (length (requests w)) \<and>
           attempts b req maxRetries s resp cfg w =
             ((None, Some (RetriesExhausted (StatusCode r) maxRetries)), cfg, w2)"
proof -
  from attempt_body_fresh [OF assms(1-3), of b maxRetries s] assms(4)
  obtain w2 where "length (requests w2) = Suc (length (requests w))"
    and "attempt_body b req maxRetries s cfg w =
           Inl ((None, Some (RetriesExhausted (StatusCode r) maxRetries)), cfg, w2)"
    by auto
  moreover from this
  have "attempts b req maxRetries s resp cfg w =
          ((None, Some (RetriesExhausted (StatusCode r) maxRetries)), cfg, w2)"
    by (subst attempts.simps) simp
  ultimately show ?thesis
    by blast
qed

lemma RoundTrip_429_429_200:
  assumes fresh: "token_is_fresh cfg w" and resets: "body_resets req"
    and ans: "answers w [r1, r2, r3]"
    and st: "StatusCode r1 = 429" "StatusCode r2 = 429" "StatusCode r3 = 200"
  shows "fst (RoundTrip b req cfg w) = (Some r3, None) \<and>
         length (requests (snd (snd (RoundTrip b req cfg w)))) = length (requests w) + 3"
proof -
  let ?w0 = "w\<lparr>time_reads := Suc (time_reads w)\<rparr>"
  let ?k = "length (requests w)"
  from ans have a: "\<forall>c. base w ?k c = Responded r1" "\<forall>c. base w (Suc ?k) c = Responded r2"
    "\<forall>c. base w (Suc (Suc ?k)) c = Responded r3"
    by (simp_all add: answers_def All_less_Suc)
  have rt: "RoundTrip b req cfg w = attempts b req 0 (Body req) None cfg ?w0"
    by (simp add: RoundTrip_def RefreshIfExpired_fresh [OF fresh])
  have f0: "token_is_fresh cfg ?w0"
    using fresh by (rule token_is_fresh_frame) simp
  from attempts_retry [OF f0 resets, of r1 0 b "Body req" None] a(1) st(1)
  obtain s1 w1 where f1: "token_is_fresh cfg w1" and b1: "base w1 = base w"
    and l1: "length (requests w1) = Suc ?k"
    and e1: "attempts b req 0 (Body req) None cfg ?w0 = attempts b req (Suc 0) s1 (Some r1) cfg w1"
    by (auto simp: maxRetries_def)
  from attempts_retry [OF f1 resets, of r2 "Suc 0" b s1 "Some r1"] a(2) st(2) b1 l1
  obtain s2 w2 where f2: "token_is_fresh cfg w2" and b2: "base w2 = base w"
    and l2: "length (requests w2) = Suc (Suc ?k)"
    and e2: "attempts b req (Suc 0) s1 (Some r1) cfg w1 = attempts b req (Suc (Suc 0)) s2 (Some r2) cfg w2"
    by (auto simp: maxRetries_def)
  from attempts_success [OF f2 resets, of r3 "Suc (Suc 0)" b s2 "Some r2"] a(3) st(3) b2 l2
  obtain w3 where l3: "length (requests w3) = Suc (Suc (Suc ?k))"
    and e3: "attempts b req (Suc (Suc 0)) s2 (Some r2) cfg w2 = ((Some r3, None), cfg, w3)"
    by (auto simp: maxRetries_def)
  from rt e1 e2 e3 l3 show ?thesis
    by simp
qed

lemma RoundTrip_500_four_times:
  assumes fresh: "token_is_fresh cfg w" and resets: "body_resets req"
    and ans: "answers w [r1, r2, r3, r4]"
    and st: "StatusCode r1 = 500" "StatusCode r2 = 500" "StatusCode r3 = 500" "StatusCode r4 = 500"
  shows "fst (RoundTrip b req cfg w) = (None, Some (RetriesExhausted 500 3)) \<and>
         length (requests (snd (snd (RoundTrip b req cfg w)))) = length (requests w) + 4"
proof -
  let ?w0 = "w\<lparr>time_reads := Suc (time_reads w)\<rparr>"
  let ?k = "length (requests w)"
  from ans have a: "\<forall>c. base w ?k c = Responded r1" "\<forall>c. base w (Suc ?k) c = Responded r2"
    "\<forall>c. base w (Suc (Suc ?k)) c = Responded r3" "\<forall>c. base w (Suc (Suc (Suc ?k))) c = Responded r4"
    by (simp_all add: answers_def All_less_Suc)
  have rt: "RoundTrip b req cfg w = attempts b req 0 (Body req) None cfg ?w0"
    by (simp add: RoundTrip_def RefreshIfExpired_fresh [OF fresh])
  have f0: "token_is_fresh cfg ?w0"
    using fresh by (rule token_is_fresh_frame) simp
  from attempts_retry [OF f0 resets, of r1 0 b "Body req" None] a(1) st(1)
  obtain s1 w1 where f1: "token_is_fresh cfg w1" and b1: "base w1 = base w"
    and l1: "length (requests w1) = Suc ?k"
    and e1: "attempts b req 0 (Body req) None cfg ?w0 = attempts b req (Suc 0) s1 (Some r1) cfg w1"
    by (auto simp: maxRetries_def)
  from attempts_retry [OF f1 resets, of r2 "Suc 0" b s1 "Some r1"] a(2) st(2) b1 l1
  obtain s2 w2 where f2: "token_is_fresh cfg w2" and b2: "base w2 = base w"
    and l2: "length (requests w2) = Suc (Suc ?k)"
    and e2: "attempts b req (Suc 0) s1 (Some r1) cfg w1 = attempts b req (Suc (Suc 0)) s2 (Some r2) cfg w2"
    by (auto simp: maxRetries_def)
  from attempts_retry [OF f2 resets, of r3 "Suc (Suc 0)" b s2 "Some r2"] a(3) st(3) b2 l2
  obtain s3 w3 where f3: "token_is_fresh cfg w3" and b3: "base w3 = base w"
    and l3: "length (requests w3) = Suc (Suc (Suc ?k))"
    and e3: "attempts b req (Suc (Suc 0)) s2 (Some r2) cfg w2 = attempts b req (Suc (Suc (Suc 0))) s3 (Some r3) cfg w3"
    by (auto simp: maxRetries_def)
  have m: "maxRetries = Suc (Suc (Suc 0))"
    by (simp add: maxRetries_def)
  from attempts_exhausted [OF f3 resets, of r4 b s3 "Some r3"] a(4) st(4) b3 l3
  obtain w4 where l4: "length (requests w4) = Suc (Suc (Suc (Suc ?k)))"
    and e4: "attempts b req maxRetries s3 (Some r3) cfg w3 = ((None, Some (RetriesExhausted 500 maxRetries)), cfg, w4)"
    by auto
  from rt e1 e2 e3 e4 l4 show ?thesis
    by (simp add: m)
qed

lemma RoundTrip_trace:
  "base (snd (snd (RoundTrip b req cfg w))) = base w \<and>
   (\<exists>new. requests (snd (snd (RoundTrip b req cfg w))) = requests w @ new \<and>
      length new \<le> Suc maxRetries \<and>
      (\<forall>j. Suc j < length new \<longrightarrow>
         (\<exists>r. base w (length (requests w) + j) (new ! j) = Responded r \<and>
              (StatusCode r = 429 \<or> 500 \<le> StatusCode r))))"
proof (cases "fst (RefreshIfExpired cfg w)")
  case (Some err)
  then have "snd (snd (RoundTrip b req cfg w)) = snd (snd (RefreshIfExpired cfg w))"
    by (simp add: RoundTrip_def split_beta)
  then show ?thesis
    by (simp add: RefreshIfExpired_frame)
next
  case None
  let ?cfg1 = "fst (snd (RefreshIfExpired cfg w))"
  let ?w1 = "snd (snd (RefreshIfExpired cfg w))"
  from None have rt: "RoundTrip b req cfg w = attempts b req 0 (Body req) None ?cfg1 ?w1"
    by (simp add: RoundTrip_def split_beta)
  obtain res cfg' w' where run: "attempts b req 0 (Body req) None ?cfg1 ?w1 = (res, cfg', w')"
    by (cases "attempts b req 0 (Body req) None ?cfg1 ?w1") auto
  from attempts_trace [OF run] rt run show ?thesis
    by (simp add: RefreshIfExpired_frame)
qed

lemma freshConfig_is_fresh: "token_is_fresh freshConfig (serving statuses)"
  by (simp add: token_is_fresh_def freshConfig_def serving_def quiet_world_def word_sless_alt)

text \<open>
  Claim C3. Whatever the environment answers, one call of \<open>RoundTrip\<close> hands at most
  \<open>maxRetries + 1\<close> requests to the base transport, and every request but the last one
  it hands over was answered with status 429 or at least 500. When the token is fresh and
  the answers are 429, 429, 200, it issues exactly 3 requests and returns the third
  response; when they are 500 four times (\<open>maxRetries\<close> is 3), it issues exactly 4
  requests and returns the error that carries the status 500 and the retry count 3.
\<close>

theorem RoundTrip_retries_bounded:
  "length (requests (snd (snd (RoundTrip b req cfg w)))) \<le> length (requests w) + (maxRetries + 1)
   \<and> (\<forall>j. length (requests w) \<le> j \<and> Suc j < length (requests (snd (snd (RoundTrip b req cfg w))))
          \<longrightarrow> (\<exists>r. base w j (requests (snd (snd (RoundTrip b req cfg w))) ! j) = Responded r
                    \<and> (StatusCode r = 429 \<or> 500 \<le> StatusCode r)))
   \<and> (token_is_fresh cfg w \<and> body_resets req \<and> answers w [r1, r2, r3]
        \<and> StatusCode r1 = 429 \<and> StatusCode r2 = 429 \<and> StatusCode r3 = 200
        \<longrightarrow> fst (RoundTrip b req cfg w) = (Some r3, None)
            \<and> length (requests (snd (snd (RoundTrip b req cfg w)))) = length (requests w) + 3)
   \<and> (token_is_fresh cfg w \<and> body_resets req \<and> answers w [q1, q2, q3, q4]
        \<and> StatusCode q1 = 500 \<and> StatusCode q2 = 500 \<and> StatusCode q3 = 500 \<and> StatusCode q4 = 500
        \<longrightarrow> maxRetries = 3
            \<and> fst (RoundTrip b req cfg w) = (None, Some (RetriesExhausted 500 3))
            \<and> length (requests (snd (snd (RoundTrip b req cfg w)))) = length (requests w) + 4)"
proof (intro conjI allI impI)
  let ?w' = "snd (snd (RoundTrip b req cfg w))"
  from RoundTrip_trace [of b req cfg w]
  obtain new where new: "requests ?w' = requests w @ new" and len: "length new \<le> Suc maxRetries"
    and ret: "\<And>j. Suc j < length new \<Longrightarrow>
         \<exists>r. base w (length (requests w) + j) (new ! j) = Responded r \<and>
              (StatusCode r = 429 \<or> 500 \<le> StatusCode r)"
    by blast
  from new len show "length (requests ?w') \<le> length (requests w) + (maxRetries + 1)"
    by simp
  fix j
  assume j: "length (requests w) \<le> j \<and> Suc j < length (requests ?w')"
  then obtain i where i: "j = length (requests w) + i"
    using le_Suc_ex by blast
  with j new have "Suc i < length new"
    by simp
  from ret [OF this] i new
  show "\<exists>r. base w j (requests ?w' ! j) = Responded r \<and> (StatusCode r = 429 \<or> 500 \<le> StatusCode r)"
    by (simp add: nth_append)
next
  assume "token_is_fresh cfg w \<and> body_resets req \<and> answers w [r1, r2, r3]
        \<and> StatusCode r1 = 429 \<and> StatusCode r2 = 429 \<and> StatusCode r3 = 200"
  then have "fst (RoundTrip b req cfg w) = (Some r3, None) \<and>
         length (requests (snd (snd (RoundTrip b req cfg w)))) = length (requests w) + 3"
    using RoundTrip_429_429_200 [of cfg w req r1 r2 r3 b] by simp
  then show "fst (RoundTrip b req cfg w) = (Some r3, None)"
    and "length (requests (snd (snd (RoundTrip b req cfg w)))) = length (requests w) + 3"
    by simp_all
next
  show "maxRetries = 3"
    by (simp add: maxRetries_def)
next
  assume "token_is_fresh cfg w \<and> body_resets req \<and> answers w [q1, q2, q3, q4]
        \<and> StatusCode q1 = 500 \<and> StatusCode q2 = 500 \<and> StatusCode q3 = 500 \<and> StatusCode q4 = 500"
  then have "fst (RoundTrip b req cfg w) = (None, Some (RetriesExhausted 500 3)) \<and>
         length (requests (snd (snd (RoundTrip b req cfg w)))) = length (requests w) + 4"
    using RoundTrip_500_four_times [of cfg w req q1 q2 q3 q4 b] by simp
  then show "fst (RoundTrip b req cfg w) = (None, Some (RetriesExhausted 500 3))"
    and "length (requests (snd (snd (RoundTrip b req cfg w)))) = length (requests w) + 4"
    by simp_all
qed

theorem RoundTrip_retries_bounded_witness:
  "fst (RoundTrip 0 get_request freshConfig (serving [429, 429, 200])) = (Some (reply 200), None)
   \<and> length (requests (snd (snd (RoundTrip 0 get_request freshConfig (serving [429, 429, 200]))))) = 3
   \<and> fst (RoundTrip 0 get_request freshConfig (serving [500, 500, 500, 500]))
       = (None, Some (RetriesExhausted 500 3))
   \<and> length (requests (snd (snd (RoundTrip 0 get_request freshConfig
         (serving [500, 500, 500, 500]))))) = 4"
proof -
  have g: "body_resets get_request"
    by (simp add: body_resets_def get_request_def)
  have a: "answers (serving [429, 429, 200]) [reply 429, reply 429, reply 200]"
    by (simp add: answers_def serving_def quiet_world_def All_less_Suc)
  have a': "answers (serving [500, 500, 500, 500]) [reply 500, reply 500, reply 500, reply 500]"
    by (simp add: answers_def serving_def quiet_world_def All_less_Suc)
  have s: "StatusCode (reply 429) = 429" "StatusCode (reply 200) = 200"
    "StatusCode (reply 500) = 500"
    by (simp_all add: reply_def)
  have e: "requests (serving xs) = []" for xs
    by (simp add: serving_def quiet_world_def)
  from RoundTrip_retries_bounded [of 0 get_request freshConfig "serving [429, 429, 200]"
      "reply 429" "reply 429" "reply 200" "reply 500" "reply 500" "reply 500" "reply 500"]
    freshConfig_is_fresh g a s
  have 1: "fst (RoundTrip 0 get_request freshConfig (serving [429, 429, 200])) = (Some (reply 200), None)
    \<and> length (requests (snd (snd (RoundTrip 0 get_request freshConfig (serving [429, 429, 200]))))) = 3"
    by (simp add: e)
  from RoundTrip_retries_bounded [of 0 get_request freshConfig "serving [500, 500, 500, 500]"
      "reply 429" "reply 429" "reply 200" "reply 500" "reply 500" "reply 500" "reply 500"]
    freshConfig_is_fresh g a' s
  have 2: "fst (RoundTrip 0 get_request freshConfig (serving [500, 500, 500, 500]))
       = (None, Some (RetriesExhausted 500 3))
    \<and> length (requests (snd (snd (RoundTrip 0 get_request freshConfig
         (serving [500, 500, 500, 500]))))) = 4"
    by (simp add: e)
  from 1 2 show ?thesis
    by simp
qed

section \<open>Properties of the token refresher\<close>

lemma sint_plus_30:
  fixes now :: int64
  assumes "sint now < 2 ^ 63 - 30"
  shows "sint (now + 30) = sint now + 30"
proof -
  have lo: "- (2 ^ 63) \<le> sint now"
    using sint_ge [of now] by simp
  have "sint (now + 30) = signed_take_bit 63 (sint now + sint (30 :: int64))"
    by (simp add: sint_word_ariths)
  also have "sint (30 :: int64) = 30"
    by simp
  also have "signed_take_bit 63 (sint now + 30) = sint now + 30"
    using lo assms by (intro signed_take_bit_int_eq_self) simp_all
  finally show ?thesis .
qed

lemma Save_ok:
  assumes "fst (Save cfg w) = None"
  shows "config_file (disk (snd (Save cfg w))) =
           Some \<lparr>content = Json cfg,
                 mode = (case config_file (disk w) of None \<Rightarrow> 384 | Some f \<Rightarrow> mode f)\<rparr>"
  using assms
  by (auto simp: Save_def Save_trace_def os_MkdirAll_def os_WriteFile_def Let_def
      split: option.splits sum.splits if_splits)

lemma postToken_Inr:
  "fst (postToken vals w) = Inr toks \<longleftrightarrow>
     (\<exists>body tr. token_endpoint w (length (token_posts w)) vals = Answered 200 body (Some tr)
        \<and> TR_AccessToken tr \<noteq> []
        \<and> toks = \<lparr>AccessToken = TR_AccessToken tr, RefreshToken = TR_RefreshToken tr,
                   ExpiresAt = TR_ExpiresAt tr, TokenType = TR_TokenType tr\<rparr>)"
  by (auto simp: postToken_def Let_def split: post_outcome.splits option.splits)

lemma Save_no_fault:
  assumes "\<forall>c. os_fault w c = None"
  shows "fst (Save cfg w) = None"
  using assms
  by (simp add: Save_def Save_trace_def os_MkdirAll_def os_WriteFile_def Let_def
      split: option.splits)

lemma Save_content:
  assumes "fst (Save cfg w) = None"
  shows "map_option content (config_file (disk (snd (Save cfg w)))) = Some (Json cfg)"
  using Save_ok [OF assms] by simp

lemma RefreshIfExpired_due:
  assumes tok: "AccessToken (Tokens cfg) \<noteq> []"
    and due: "\<not> unix_time w (time_reads w) + 30 <s ExpiresAt (Tokens cfg)"
  shows "token_posts (snd (snd (RefreshIfExpired cfg w))) = token_posts w @ [refresh_grant cfg]"
    and "token_endpoint w (length (token_posts w)) (refresh_grant cfg) = Answered 200 body (Some tr)
         \<Longrightarrow> TR_AccessToken tr \<noteq> [] \<Longrightarrow> \<forall>c. os_fault w c = None
         \<Longrightarrow> fst (RefreshIfExpired cfg w) = None
             \<and> Tokens (fst (snd (RefreshIfExpired cfg w))) =
                 \<lparr>AccessToken = TR_AccessToken tr, RefreshToken = TR_RefreshToken tr,
                  ExpiresAt = TR_ExpiresAt tr, TokenType = TR_TokenType tr\<rparr>
             \<and> map_option content (config_file (disk (snd (snd (RefreshIfExpired cfg w))))) =
                 Some (Json (fst (snd (RefreshIfExpired cfg w))))"
proof -
  let ?w1 = "w\<lparr>time_reads := Suc (time_reads w)\<rparr>"
  let ?p = "postToken (refresh_grant cfg) ?w1"
  have r: "RefreshIfExpired cfg w =
     (case ?p of
        (Inl err, w2) \<Rightarrow> (Some (RefreshTokenFailed err), cfg, w2)
      | (Inr toks, w2) \<Rightarrow>
          (fst (Save (cfg\<lparr>Tokens := toks\<rparr>) w2), cfg\<lparr>Tokens := toks\<rparr>,
           snd (Save (cfg\<lparr>Tokens := toks\<rparr>) w2)))"
    using tok due
    by (simp add: RefreshIfExpired_def time_Now_Unix_def refreshTokens_def refresh_grant_def)
  show "token_posts (snd (snd (RefreshIfExpired cfg w))) = token_posts w @ [refresh_grant cfg]"
    by (simp add: r split_beta postToken_frame Save_frame split: sum.split)
  assume ans: "token_endpoint w (length (token_posts w)) (refresh_grant cfg) = Answered 200 body (Some tr)"
    and acc: "TR_AccessToken tr \<noteq> []" and ok: "\<forall>c. os_fault w c = None"
  let ?toks = "\<lparr>AccessToken = TR_AccessToken tr, RefreshToken = TR_RefreshToken tr,
                  ExpiresAt = TR_ExpiresAt tr, TokenType = TR_TokenType tr\<rparr>"
  from ans acc have p: "fst ?p = Inr ?toks"
    by (simp add: postToken_Inr)
  from ok have "\<forall>c. os_fault (snd ?p) c = None"
    by (simp add: postToken_frame)
  then have s: "fst (Save (cfg\<lparr>Tokens := ?toks\<rparr>) (snd ?p)) = None"
    by (rule Save_no_fault)
  from p have r': "RefreshIfExpired cfg w =
      (fst (Save (cfg\<lparr>Tokens := ?toks\<rparr>) (snd ?p)), cfg\<lparr>Tokens := ?toks\<rparr>,
       snd (Save (cfg\<lparr>Tokens := ?toks\<rparr>) (snd ?p)))"
    by (simp add: r split_beta)
  show "fst (RefreshIfExpired cfg w) = None
             \<and> Tokens (fst (snd (RefreshIfExpired cfg w))) = ?toks
             \<and> map_option content (config_file (disk (snd (snd (RefreshIfExpired cfg w))))) =
                 Some (Json (fst (snd (RefreshIfExpired cfg w))))"
    using s Save_content [OF s] by (simp add: r')
qed

text \<open>
  Claim C4. With a clock that is not within 30 seconds of the end of \<open>int64\<close>:
  when the access token is empty, \<open>RefreshIfExpired\<close> fails with "not authenticated" and
  touches nothing; when it is not empty and now + 30 < expires_at, it returns without error,
  posts nothing to the token endpoint and changes neither the config nor the disk; when it
  is not empty and now + 30 >= expires_at, it posts exactly one form to the token endpoint,
  the refresh grant, and when the endpoint answers with tokens and no system call fails,
  the config holds the new tokens and \<open>config.json\<close> holds that config.
\<close>

theorem RefreshIfExpired_exchanges:
  assumes "sint (unix_time w (time_reads w)) < 2 ^ 63 - 30"
  shows
    "(AccessToken (Tokens cfg) = []
        \<longrightarrow> RefreshIfExpired cfg w = (Some NotAuthenticated, cfg, w))
     \<and> (AccessToken (Tokens cfg) \<noteq> []
          \<and> sint (unix_time w (time_reads w)) + 30 < sint (ExpiresAt (Tokens cfg))
        \<longrightarrow> fst (RefreshIfExpired cfg w) = None
            \<and> fst (snd (RefreshIfExpired cfg w)) = cfg
            \<and> token_posts (snd (snd (RefreshIfExpired cfg w))) = token_posts w
            \<and> disk (snd (snd (RefreshIfExpired cfg w))) = disk w)
     \<and> (AccessToken (Tokens cfg) \<noteq> []
          \<and> sint (ExpiresAt (Tokens cfg)) \<le> sint (unix_time w (time_reads w)) + 30
        \<longrightarrow> token_posts (snd (snd (RefreshIfExpired cfg w))) = token_posts w @ [refresh_grant cfg]
            \<and> (\<forall>body tr.
                  token_endpoint w (length (token_posts w)) (refresh_grant cfg)
                    = Answered 200 body (Some tr)
                  \<and> TR_AccessToken tr \<noteq> [] \<and> (\<forall>c. os_fault w c = None)
                  \<longrightarrow> fst (RefreshIfExpired cfg w) = None
                      \<and> Tokens (fst (snd (RefreshIfExpired cfg w))) =
                          \<lparr>AccessToken = TR_AccessToken tr, RefreshToken = TR_RefreshToken tr,
                           ExpiresAt = TR_ExpiresAt tr, TokenType = TR_TokenType tr\<rparr>
                      \<and> map_option content
                            (config_file (disk (snd (snd (RefreshIfExpired cfg w))))) =
                          Some (Json (fst (snd (RefreshIfExpired cfg w))))))"
proof -
  have cmp: "(unix_time w (time_reads w) + 30 <s ExpiresAt (Tokens cfg)) =
             (sint (unix_time w (time_reads w)) + 30 < sint (ExpiresAt (Tokens cfg)))"
    by (simp add: word_sless_alt sint_plus_30 [OF assms])
  have 1: "AccessToken (Tokens cfg) = []
        \<longrightarrow> RefreshIfExpired cfg w = (Some NotAuthenticated, cfg, w)"
    by (simp add: RefreshIfExpired_def)
  have 2: "AccessToken (Tokens cfg) \<noteq> []
          \<and> sint (unix_time w (time_reads w)) + 30 < sint (ExpiresAt (Tokens cfg))
        \<longrightarrow> fst (RefreshIfExpired cfg w) = None
            \<and> fst (snd (RefreshIfExpired cfg w)) = cfg
            \<and> token_posts (snd (snd (RefreshIfExpired cfg w))) = token_posts w
            \<and> disk (snd (snd (RefreshIfExpired cfg w))) = disk w"
    by (simp add: RefreshIfExpired_def time_Now_Unix_def cmp)
  have 3: "AccessToken (Tokens cfg) \<noteq> []
          \<and> sint (ExpiresAt (Tokens cfg)) \<le> sint (unix_time w (time_reads w)) + 30
        \<longrightarrow> token_posts (snd (snd (RefreshIfExpired cfg w))) = token_posts w @ [refresh_grant cfg]
            \<and> (\<forall>body tr.
                  token_endpoint w (length (token_posts w)) (refresh_grant cfg)
                    = Answered 200 body (Some tr)
                  \<and> TR_AccessToken tr \<noteq> [] \<and> (\<forall>c. os_fault w c = None)
                  \<longrightarrow> fst (RefreshIfExpired cfg w) = None
                      \<and> Tokens (fst (snd (RefreshIfExpired cfg w))) =
                          \<lparr>AccessToken = TR_AccessToken tr, RefreshToken = TR_RefreshToken tr,
                           ExpiresAt = TR_ExpiresAt tr, TokenType = TR_TokenType tr\<rparr>
                      \<and> map_option content
                            (config_file (disk (snd (snd (RefreshIfExpired cfg w))))) =
                          Some (Json (fst (snd (RefreshIfExpired cfg w)))))"
  proof (intro impI conjI allI)
    assume a: "AccessToken (Tokens cfg) \<noteq> []
          \<and> sint (ExpiresAt (Tokens cfg)) \<le> sint (unix_time w (time_reads w)) + 30"
    then have tok: "AccessToken (Tokens cfg) \<noteq> []"
      and due: "\<not> unix_time w (time_reads w) + 30 <s ExpiresAt (Tokens cfg)"
      by (simp_all add: cmp)
    show "token_posts (snd (snd (RefreshIfExpired cfg w))) = token_posts w @ [refresh_grant cfg]"
      by (rule RefreshIfExpired_due(1) [OF tok due])
    fix body tr
    assume b: "token_endpoint w (length (token_posts w)) (refresh_grant cfg)
                    = Answered 200 body (Some tr)
                  \<and> TR_AccessToken tr \<noteq> [] \<and> (\<forall>c. os_fault w c = None)"
    from RefreshIfExpired_due(2) [OF tok due, of body tr] b
    show "fst (RefreshIfExpired cfg w) = None"
      and "Tokens (fst (snd (RefreshIfExpired cfg w))) =
                          \<lparr>AccessToken = TR_AccessToken tr, RefreshToken = TR_RefreshToken tr,
                           ExpiresAt = TR_ExpiresAt tr, TokenType = TR_TokenType tr\<rparr>"
      and "map_option content
                            (config_file (disk (snd (snd (RefreshIfExpired cfg w))))) =
                          Some (Json (fst (snd (RefreshIfExpired cfg w))))"
      by simp_all
  qed
  from 1 2 3 show ?thesis
    by (intro conjI)
qed

theorem RefreshIfExpired_exchanges_witness:
  "RefreshIfExpired zero_config token_server = (Some NotAuthenticated, zero_config, token_server)
   \<and> fst (RefreshIfExpired freshConfig token_server) = None
   \<and> token_posts (snd (snd (RefreshIfExpired freshConfig token_server))) = []
   \<and> fst (RefreshIfExpired expiredConfig token_server) = None
   \<and> token_posts (snd (snd (RefreshIfExpired expiredConfig token_server))) =
       [refresh_grant expiredConfig]
   \<and> AccessToken (Tokens (fst (snd (RefreshIfExpired expiredConfig token_server)))) =
       ''new-access-token''
   \<and> map_option content
        (config_file (disk (snd (snd (RefreshIfExpired expiredConfig token_server))))) =
       Some (Json (fst (snd (RefreshIfExpired expiredConfig token_server))))"
proof -
  have clock: "sint (unix_time token_server (time_reads token_server)) < 2 ^ 63 - 30"
    by (simp add: token_server_def quiet_world_def)
  have 1: "AccessToken (Tokens zero_config) = []"
    by (simp add: zero_config_def zero_tokens_def)
  have 2: "AccessToken (Tokens freshConfig) \<noteq> []
      \<and> sint (unix_time token_server (time_reads token_server)) + 30
          < sint (ExpiresAt (Tokens freshConfig))"
    by (simp add: freshConfig_def token_server_def quiet_world_def)
  have 3: "AccessToken (Tokens expiredConfig) \<noteq> []
      \<and> sint (ExpiresAt (Tokens expiredConfig))
          \<le> sint (unix_time token_server (time_reads token_server)) + 30"
    by (simp add: expiredConfig_def token_server_def quiet_world_def)
  have 4: "token_endpoint token_server (length (token_posts token_server))
             (refresh_grant expiredConfig) = Answered 200 ''{...}'' (Some newTokens)
           \<and> TR_AccessToken newTokens \<noteq> [] \<and> (\<forall>c. os_fault token_server c = None)"
    by (simp add: token_server_def quiet_world_def newTokens_def)
  have 5: "token_posts token_server = []"
    by (simp add: token_server_def quiet_world_def)
  from RefreshIfExpired_exchanges [OF clock, of zero_config] 1
  have a: "RefreshIfExpired zero_config token_server = (Some NotAuthenticated, zero_config, token_server)"
    by simp
  from RefreshIfExpired_exchanges [OF clock, of freshConfig] 2 5
  have b: "fst (RefreshIfExpired freshConfig token_server) = None
     \<and> token_posts (snd (snd (RefreshIfExpired freshConfig token_server))) = []"
    by simp
  from RefreshIfExpired_exchanges [OF clock, of expiredConfig] 3 4 5
  have c: "fst (RefreshIfExpired expiredConfig token_server) = None
   \<and> token_posts (snd (snd (RefreshIfExpired expiredConfig token_server))) =
       [refresh_grant expiredConfig]
   \<and> AccessToken (Tokens (fst (snd (RefreshIfExpired expiredConfig token_server)))) =
       ''new-access-token''
   \<and> map_option content
        (config_file (disk (snd (snd (RefreshIfExpired expiredConfig token_server))))) =
       Some (Json (fst (snd (RefreshIfExpired expiredConfig token_server))))"
    by (simp add: newTokens_def)
  from a b c show ?thesis
    by simp
qed

section \<open>Properties of the remote login\<close>

lemma exchangeCode_posts:
  "token_posts (snd (exchangeCode cid cs code ruri w)) =
     token_posts w @ [authorization_code_grant cid cs code ruri]"
  by (simp add: exchangeCode_def authorization_code_grant_def split_beta postToken_frame
      split: sum.split)

lemma exchangeCode_frame:
  "disk (snd (exchangeCode cid cs code ruri w)) = disk w"
  "os_fault (snd (exchangeCode cid cs code ruri w)) = os_fault w"
  by (simp_all add: exchangeCode_def split_beta postToken_frame split: sum.split)

lemma exchangeCode_error:
  "fst (exchangeCode cid cs code ruri w) = Inl e \<Longrightarrow> \<exists>e'. e = TokenExchange e'"
  by (auto simp: exchangeCode_def split_beta split: sum.splits)

lemma CompleteRemoteLogin_state_rejected:
  assumes "expectedState \<noteq> []" and "snd (extractCodeAndState pasted) \<noteq> expectedState"
  shows "CompleteRemoteLogin cid cs ruri expectedState pasted w =
           (Inl (if snd (extractCodeAndState pasted) = [] then NoStateParameter
                 else StateMismatch), w)"
  using assms by (simp add: CompleteRemoteLogin_def split_beta Let_def)

lemma CompleteRemoteLogin_no_expected_state:
  "CompleteRemoteLogin cid cs ruri [] pasted w =
     (if fst (extractCodeAndState pasted) = [] then (Inl (NoAuthorizationCode pasted), w)
      else exchangeCode cid cs (fst (extractCodeAndState pasted)) ruri w)"
  by (simp add: CompleteRemoteLogin_def split_beta Let_def)

lemma CompleteRemoteLogin_state_error:
  assumes "fst (CompleteRemoteLogin cid cs ruri expectedState pasted w) = Inl e"
    and "e = NoStateParameter \<or> e = StateMismatch"
  shows "expectedState \<noteq> []"
proof
  assume "expectedState = []"
  with assms(1) have "fst (if fst (extractCodeAndState pasted) = []
      then (Inl (NoAuthorizationCode pasted), w)
      else exchangeCode cid cs (fst (extractCodeAndState pasted)) ruri w) = Inl e"
    by (simp add: CompleteRemoteLogin_no_expected_state)
  then have "e = NoAuthorizationCode pasted \<or> (\<exists>e'. e = TokenExchange e')"
    by (auto split: if_splits dest: exchangeCode_error)
  with assms(2) show False
    by auto
qed

lemma extractCodeAndState_bare:
  assumes "\<not> Contains (RemoveBackslashes (TrimSpace pasted)) CHR ''?''"
    and "\<not> Contains (RemoveBackslashes (TrimSpace pasted)) CHR ''&''"
  shows "extractCodeAndState pasted = (RemoveBackslashes (TrimSpace pasted), [])"
  using assms by (simp add: extractCodeAndState_def Let_def)

lemma completeRemoteLogin_state_rejected:
  assumes p: "PendingAuth cfg = Some pending" and ne: "State pending \<noteq> []"
    and diff: "snd (extractCodeAndState pasted) \<noteq> State pending"
  shows "fst (completeRemoteLogin pasted cfg w) =
           Some (if PA_ExpiresAt pending <s unix_time w (time_reads w) then AuthURLExpired
                 else if snd (extractCodeAndState pasted) = [] then NoStateParameter
                 else StateMismatch)"
    and "token_posts (snd (snd (completeRemoteLogin pasted cfg w))) = token_posts w"
  using p CompleteRemoteLogin_state_rejected [OF ne diff]
  by (simp_all add: completeRemoteLogin_def time_Now_Unix_def Save_frame)

text \<open>ASCII strings pass through JSON unchanged.\<close>

lemma json_string_ascii:
  "\<forall>c \<in> set s. of_char c < (0x80 :: nat) \<Longrightarrow> json_string s = s"
  by (induction s) simp_all

lemmas json_ascii =
  json_config_def json_tokens_def json_pending_auth_def json_string_ascii zero_tokens_def

lemmas run_step2 =
  runAuthLogin_def Load_def stored_def token_server_def quiet_world_def pendingConfig_def
  json_ascii
  completeRemoteLogin_def time_Now_Unix_def word_sless_alt CompleteRemoteLogin_def
  exchangeCode_def postToken_def newTokens_def Save_def Save_trace_def os_MkdirAll_def
  os_WriteFile_def

lemma extract_pastedURL: "extractCodeAndState pastedURL = (''abc'', ''xyz'')"
  by code_simp

lemma extract_pastedWithoutState: "extractCodeAndState pastedWithoutState = (''abc'', [])"
  by code_simp

lemma of_char_less_256: "of_char c < (256 :: nat)"
  by (cases c) (simp add: of_char_def horner_sum_eq_sum flip: of_nat_of_char)

lemma hextable_digits:
  "\<forall>k \<in> set [0..<16]. hextable ! k \<in> set hextable \<and> of_char (hextable ! k) < (0x80 :: nat)"
  by code_simp

lemma hextable_digit:
  assumes "k < 16"
  shows "hextable ! k \<in> set hextable \<and> of_char (hextable ! k) < (0x80 :: nat)"
  using assms hextable_digits by simp

lemma hex_EncodeToString_length: "length (hex_EncodeToString src) = 2 * length src"
  by (induction src) (simp_all add: hex_EncodeToString_def)

lemma hex_EncodeToString_digits:
  assumes "c \<in> set (hex_EncodeToString src)"
  shows "c \<in> set hextable \<and> of_char c < (0x80 :: nat)"
proof -
  from assms obtain v where "c = hextable ! (of_char v div 16) \<or> c = hextable ! (of_char v mod 16)"
    by (auto simp: hex_EncodeToString_def)
  moreover have "of_char v div 16 < (16 :: nat)"
    using of_char_less_256 [of v] by arith
  moreover have "of_char v mod 16 < (16 :: nat)"
    by simp
  ultimately show ?thesis
    using hextable_digit by metis
qed

lemma GenerateState_Inr:
  assumes "fst (GenerateState w) = Inr state"
  shows "length state = 32" and "set state \<subseteq> set hextable" and "json_string state = state"
proof -
  from assms have s: "state = hex_EncodeToString (map (random w) [random_reads w ..< random_reads w + 16])"
    by (auto simp: GenerateState_def rand_Read_def split: option.splits)
  show "length state = 32"
    by (simp add: s hex_EncodeToString_length)
  show "set state \<subseteq> set hextable"
    using hex_EncodeToString_digits s by blast
  show "json_string state = state"
    using hex_EncodeToString_digits s by (intro json_string_ascii) blast
qed

lemma GenerateState_frame:
  "disk (snd (GenerateState w)) = disk w"
  "os_fault (snd (GenerateState w)) = os_fault w"
  "token_posts (snd (GenerateState w)) = token_posts w"
  by (simp_all add: GenerateState_def rand_Read_def split: option.splits)

lemma startRemoteLogin_success:
  assumes "fst (startRemoteLogin cfg w) = None"
  shows "\<exists>p. PendingAuth (fst (snd (startRemoteLogin cfg w))) = Some p
             \<and> length (State p) = 32 \<and> set (State p) \<subseteq> set hextable
             \<and> json_string (State p) = State p
             \<and> map_option content (config_file (disk (snd (snd (startRemoteLogin cfg w)))))
                 = Some (Json (fst (snd (startRemoteLogin cfg w))))"
proof (cases "fst (GenerateState w)")
  case (Inl err)
  with assms show ?thesis
    by (simp add: startRemoteLogin_def split_beta)
next
  case (Inr state)
  let ?w1 = "snd (GenerateState w)"
  let ?cfg1 = "cfg\<lparr>PendingAuth :=
                  Some \<lparr>State = state,
                        PA_RedirectURI = (if RedirectURI cfg = [] then ''http://localhost:8089/callback''
                                          else RedirectURI cfg),
                        PA_ExpiresAt = unix_time ?w1 (time_reads ?w1) + 600\<rparr>\<rparr>"
  let ?w2 = "?w1\<lparr>time_reads := Suc (time_reads ?w1)\<rparr>"
  from Inr have r: "startRemoteLogin cfg w =
      (map_option SavePendingState (fst (Save ?cfg1 ?w2)), ?cfg1, snd (Save ?cfg1 ?w2))"
    by (simp add: startRemoteLogin_def split_beta time_Now_Unix_def Let_def)
  with assms have s: "fst (Save ?cfg1 ?w2) = None"
    by simp
  from Save_content [OF s] GenerateState_Inr [OF Inr] show ?thesis
    by (simp add: r)
qed

lemma json_config_PendingAuth:
  "PendingAuth (json_config cfg) = map_option json_pending_auth (PendingAuth cfg)"
  by (simp add: json_config_def)

lemma runAuthLogin_state_rejected:
  assumes stored: "map_option content (config_file (disk w)) = Some (Json cfg)"
    and p: "PendingAuth cfg = Some p" and ne: "State p \<noteq> []"
    and ascii: "json_string (State p) = State p"
    and diff: "snd (extractCodeAndState pasted) \<noteq> State p"
  shows "fst (runAuthLogin pasted w) \<noteq> None"
    and "token_posts (snd (runAuthLogin pasted w)) = token_posts w"
proof -
  have "fst (runAuthLogin pasted w) \<noteq> None
        \<and> token_posts (snd (runAuthLogin pasted w)) = token_posts w"
  proof (cases "Load w")
    case (Inl err)
    then show ?thesis
      by (simp add: runAuthLogin_def)
  next
    case (Inr cfg')
    with stored have cfg': "cfg' = json_config cfg"
      by (auto simp: Load_def split: option.splits file_data.splits)
    have p': "PendingAuth cfg' = Some (json_pending_auth p)"
      by (simp add: cfg' json_config_PendingAuth p)
    have st: "State (json_pending_auth p) = State p"
      by (simp add: json_pending_auth_def ascii)
    from completeRemoteLogin_state_rejected [OF p', of pasted w] ne diff st Inr
    show ?thesis
      by (simp add: runAuthLogin_def)
  qed
  then show "fst (runAuthLogin pasted w) \<noteq> None"
    and "token_posts (snd (runAuthLogin pasted w)) = token_posts w"
    by simp_all
qed

text \<open>
  Claim C6. Step 1 persists as state the 32 hexadecimal digits of \<open>GenerateState\<close>, so
  a persisted state is never empty. Whenever step 2 runs (\<open>--auth-url\<close> is given) on
  the disk that a successful step 1 has left, in any environment, with a pasted input whose
  extracted state differs from the persisted one (or is empty), it fails and posts nothing
  to the token endpoint. More
  generally, for every non-empty state X of a pending login and every pasted input whose
  extracted state differs from X, \<open>completeRemoteLogin\<close> fails (with "auth URL expired"
  when the pending login has expired, else with "no state parameter" or "state mismatch")
  and posts nothing, and \<open>CompleteRemoteLogin\<close> returns the state error with the
  environment untouched: the check comes before any exchange.
\<close>

theorem state_mismatch_never_exchanges:
  "(fst (startRemoteLogin cfg0 w0) = None
      \<longrightarrow> (\<exists>p. PendingAuth (fst (snd (startRemoteLogin cfg0 w0))) = Some p
                \<and> length (State p) = 32 \<and> set (State p) \<subseteq> set hextable
                \<and> map_option content (config_file (disk (snd (snd (startRemoteLogin cfg0 w0)))))
                    = Some (Json (fst (snd (startRemoteLogin cfg0 w0))))))
   \<and> (fst (startRemoteLogin cfg0 w0) = None
        \<and> PendingAuth (fst (snd (startRemoteLogin cfg0 w0))) = Some p
        \<and> disk w = disk (snd (snd (startRemoteLogin cfg0 w0)))
        \<and> pasted \<noteq> [] \<and> snd (extractCodeAndState pasted) \<noteq> State p
      \<longrightarrow> fst (runAuthLogin pasted w) \<noteq> None
          \<and> token_posts (snd (runAuthLogin pasted w)) = token_posts w)
   \<and> (PendingAuth cfg = Some pending \<and> State pending \<noteq> []
        \<and> snd (extractCodeAndState pasted) \<noteq> State pending
      \<longrightarrow> fst (completeRemoteLogin pasted cfg w) =
            Some (if PA_ExpiresAt pending <s unix_time w (time_reads w) then AuthURLExpired
                  else if snd (extractCodeAndState pasted) = [] then NoStateParameter
                  else StateMismatch)
          \<and> token_posts (snd (snd (completeRemoteLogin pasted cfg w))) = token_posts w
          \<and> CompleteRemoteLogin cid cs ruri (State pending) pasted w =
              (Inl (if snd (extractCodeAndState pasted) = [] then NoStateParameter
                    else StateMismatch), w))"
proof (intro conjI impI)
  assume "fst (startRemoteLogin cfg0 w0) = None"
  from startRemoteLogin_success [OF this]
  show "\<exists>p. PendingAuth (fst (snd (startRemoteLogin cfg0 w0))) = Some p
                \<and> length (State p) = 32 \<and> set (State p) \<subseteq> set hextable
                \<and> map_option content (config_file (disk (snd (snd (startRemoteLogin cfg0 w0)))))
                    = Some (Json (fst (snd (startRemoteLogin cfg0 w0))))"
    by blast
next
  assume a: "fst (startRemoteLogin cfg0 w0) = None
        \<and> PendingAuth (fst (snd (startRemoteLogin cfg0 w0))) = Some p
        \<and> disk w = disk (snd (snd (startRemoteLogin cfg0 w0)))
        \<and> pasted \<noteq> [] \<and> snd (extractCodeAndState pasted) \<noteq> State p"
  with startRemoteLogin_success [of cfg0 w0]
  have stored: "map_option content (config_file (disk w))
                = Some (Json (fst (snd (startRemoteLogin cfg0 w0))))"
    and len: "length (State p) = 32" and ascii: "json_string (State p) = State p"
    by auto
  from len have ne: "State p \<noteq> []"
    by auto
  from a have p: "PendingAuth (fst (snd (startRemoteLogin cfg0 w0))) = Some p"
    and diff: "snd (extractCodeAndState pasted) \<noteq> State p"
    by simp_all
  show "fst (runAuthLogin pasted w) \<noteq> None"
    by (rule runAuthLogin_state_rejected(1) [OF stored p ne ascii diff])
  show "token_posts (snd (runAuthLogin pasted w)) = token_posts w"
    by (rule runAuthLogin_state_rejected(2) [OF stored p ne ascii diff])
next
  assume a: "PendingAuth cfg = Some pending \<and> State pending \<noteq> []
        \<and> snd (extractCodeAndState pasted) \<noteq> State pending"
  then show "fst (completeRemoteLogin pasted cfg w) =
            Some (if PA_ExpiresAt pending <s unix_time w (time_reads w) then AuthURLExpired
                  else if snd (extractCodeAndState pasted) = [] then NoStateParameter
                  else StateMismatch)"
    using completeRemoteLogin_state_rejected(1) [of cfg pending pasted w] by blast
  from a show "token_posts (snd (snd (completeRemoteLogin pasted cfg w))) = token_posts w"
    using completeRemoteLogin_state_rejected(2) [of cfg pending pasted w] by blast
  from a show "CompleteRemoteLogin cid cs ruri (State pending) pasted w =
              (Inl (if snd (extractCodeAndState pasted) = [] then NoStateParameter
                    else StateMismatch), w)"
    using CompleteRemoteLogin_state_rejected [of "State pending" pasted cid cs ruri w] by blast
qed

lemma GenerateState_token_server:
  "fst (GenerateState token_server) = Inr ''a7a7a7a7a7a7a7a7a7a7a7a7a7a7a7a7''"
  by code_simp

lemma step1_token_server:
  "fst (startRemoteLogin registered token_server) = None"
  "fst (snd (startRemoteLogin registered token_server))
     = pendingConfig ''a7a7a7a7a7a7a7a7a7a7a7a7a7a7a7a7''"
  "disk (snd (snd (startRemoteLogin registered token_server)))
     = disk (stored (pendingConfig ''a7a7a7a7a7a7a7a7a7a7a7a7a7a7a7a7''))"
  "token_posts (snd (snd (startRemoteLogin registered token_server))) = []"
proof -
  have g: "GenerateState token_server =
     (Inr ''a7a7a7a7a7a7a7a7a7a7a7a7a7a7a7a7'', token_server\<lparr>random_reads := 16\<rparr>)"
    using GenerateState_token_server
    by (auto simp: GenerateState_def rand_Read_def token_server_def quiet_world_def
        split: option.splits)
  show "fst (startRemoteLogin registered token_server) = None"
    "fst (snd (startRemoteLogin registered token_server))
     = pendingConfig ''a7a7a7a7a7a7a7a7a7a7a7a7a7a7a7a7''"
    "disk (snd (snd (startRemoteLogin registered token_server)))
     = disk (stored (pendingConfig ''a7a7a7a7a7a7a7a7a7a7a7a7a7a7a7a7''))"
    "token_posts (snd (snd (startRemoteLogin registered token_server))) = []"
    unfolding startRemoteLogin_def g
    by (simp_all add: registered_def pendingConfig_def stored_def
        time_Now_Unix_def token_server_def quiet_world_def Save_def Save_trace_def
        os_MkdirAll_def os_WriteFile_def Let_def)
qed


lemma step1_world:
  "snd (snd (startRemoteLogin registered token_server))
     = (stored (pendingConfig ''a7a7a7a7a7a7a7a7a7a7a7a7a7a7a7a7''))
         \<lparr>time_reads := 1, random_reads := 16\<rparr>"
proof -
  have g: "GenerateState token_server =
     (Inr ''a7a7a7a7a7a7a7a7a7a7a7a7a7a7a7a7'', token_server\<lparr>random_reads := 16\<rparr>)"
    using GenerateState_token_server
    by (auto simp: GenerateState_def rand_Read_def token_server_def quiet_world_def
        split: option.splits)
  show ?thesis
    unfolding startRemoteLogin_def g
    by (simp add: registered_def pendingConfig_def stored_def
        time_Now_Unix_def token_server_def quiet_world_def Save_def Save_trace_def
        os_MkdirAll_def os_WriteFile_def Let_def)
qed

text \<open>
  Step 1 in an environment whose random bytes are all \<open>A7\<close>, then step 2 on what it
  has left, with a pasted redirect whose state is \<open>xyz\<close> and with one that has no
  \<open>state\<close> parameter: both are rejected and nothing is posted, and
  \<open>CompleteRemoteLogin\<close> returns the state mismatch with the environment untouched.
\<close>

theorem state_mismatch_never_exchanges_witness:
  "fst (startRemoteLogin registered token_server) = None
   \<and> map_option State (PendingAuth (fst (snd (startRemoteLogin registered token_server))))
       = Some ''a7a7a7a7a7a7a7a7a7a7a7a7a7a7a7a7''
   \<and> fst (runAuthLogin pastedURL (snd (snd (startRemoteLogin registered token_server))))
       = Some StateMismatch
   \<and> token_posts (snd (runAuthLogin pastedURL
         (snd (snd (startRemoteLogin registered token_server))))) = []
   \<and> fst (runAuthLogin pastedWithoutState (snd (snd (startRemoteLogin registered token_server))))
       = Some NoStateParameter
   \<and> token_posts (snd (runAuthLogin pastedWithoutState
         (snd (snd (startRemoteLogin registered token_server))))) = []
   \<and> CompleteRemoteLogin ''cid'' ''csecret'' ''http://localhost:8089/callback''
         ''a7a7a7a7a7a7a7a7a7a7a7a7a7a7a7a7'' pastedURL token_server
       = (Inl StateMismatch, token_server)
   \<and> fst (completeRemoteLogin pastedURL (pendingConfig ''a7a7a7a7a7a7a7a7a7a7a7a7a7a7a7a7'')
         token_server) = Some StateMismatch"
proof -
  let ?s = "''a7a7a7a7a7a7a7a7a7a7a7a7a7a7a7a7''"
  let ?p = "\<lparr>State = ?s, PA_RedirectURI = ''http://localhost:8089/callback'',
             PA_ExpiresAt = 1600\<rparr>"
  let ?w = "snd (snd (startRemoteLogin registered token_server))"
  have p: "PendingAuth (fst (snd (startRemoteLogin registered token_server))) = Some ?p"
    by (simp add: step1_token_server pendingConfig_def)
  have x: "snd (extractCodeAndState pastedURL) \<noteq> State ?p"
    "snd (extractCodeAndState pastedWithoutState) \<noteq> State ?p"
    by (simp_all add: extract_pastedURL extract_pastedWithoutState)
  have given: "pastedURL \<noteq> []" "pastedWithoutState \<noteq> []"
    by (simp_all add: pastedURL_def pastedWithoutState_def)
  have e1: "fst (runAuthLogin pastedURL ?w) = Some StateMismatch"
    unfolding step1_world by (simp add: run_step2 extract_pastedURL)
  have e2: "fst (runAuthLogin pastedWithoutState ?w) = Some NoStateParameter"
    unfolding step1_world by (simp add: run_step2 extract_pastedWithoutState)
  have q: "PendingAuth (pendingConfig ?s) = Some ?p \<and> State ?p \<noteq> []"
    by (simp add: pendingConfig_def)
  have t: "unix_time token_server (time_reads token_server) = 1000"
    by (simp add: token_server_def quiet_world_def)
  from state_mismatch_never_exchanges
         [of registered token_server ?p token_server pastedURL "pendingConfig ?s" ?p
            "''cid''" "''csecret''" "''http://localhost:8089/callback''"] q x(1)
  have e3: "CompleteRemoteLogin ''cid'' ''csecret'' ''http://localhost:8089/callback'' ?s
              pastedURL token_server = (Inl StateMismatch, token_server)
            \<and> fst (completeRemoteLogin pastedURL (pendingConfig ?s) token_server)
                = Some StateMismatch"
    by (simp add: extract_pastedURL t word_sless_alt)
  from state_mismatch_never_exchanges [of registered token_server ?p ?w pastedURL]
    state_mismatch_never_exchanges [of registered token_server ?p ?w pastedWithoutState]
    step1_token_server p x given e1 e2 e3
  show ?thesis
    by simp
qed

text \<open>
  Claim C9, amended. With an empty \<open>expectedState\<close>, \<open>CompleteRemoteLogin\<close> makes no
  state check: it fails with "no authorization code" when the extracted code is empty and
  otherwise hands the extracted code to the token exchange, so neither state error can
  occur; for input that, trimmed and freed of backslashes, has no \<open>?\<close> and no \<open>&\<close>,
  the extracted code is that trimmed input. A state error implies a non-empty
  \<open>expectedState\<close>.
\<close>

theorem CompleteRemoteLogin_without_expected_state:
  "CompleteRemoteLogin cid cs ruri [] pasted w =
     (if fst (extractCodeAndState pasted) = [] then (Inl (NoAuthorizationCode pasted), w)
      else exchangeCode cid cs (fst (extractCodeAndState pasted)) ruri w)
   \<and> fst (CompleteRemoteLogin cid cs ruri [] pasted w) \<noteq> Inl NoStateParameter
   \<and> fst (CompleteRemoteLogin cid cs ruri [] pasted w) \<noteq> Inl StateMismatch
   \<and> (\<not> Contains (RemoveBackslashes (TrimSpace pasted)) CHR ''?''
        \<and> \<not> Contains (RemoveBackslashes (TrimSpace pasted)) CHR ''&''
      \<longrightarrow> fst (extractCodeAndState pasted) = RemoveBackslashes (TrimSpace pasted))
   \<and> (fst (CompleteRemoteLogin cid cs ruri expectedState pasted w) = Inl NoStateParameter
        \<or> fst (CompleteRemoteLogin cid cs ruri expectedState pasted w) = Inl StateMismatch
      \<longrightarrow> expectedState \<noteq> [])"
proof (intro conjI impI)
  show "CompleteRemoteLogin cid cs ruri [] pasted w =
     (if fst (extractCodeAndState pasted) = [] then (Inl (NoAuthorizationCode pasted), w)
      else exchangeCode cid cs (fst (extractCodeAndState pasted)) ruri w)"
    by (rule CompleteRemoteLogin_no_expected_state)
  show "fst (CompleteRemoteLogin cid cs ruri [] pasted w) \<noteq> Inl NoStateParameter"
    using CompleteRemoteLogin_state_error [of cid cs ruri "[]" pasted w NoStateParameter]
    by auto
  show "fst (CompleteRemoteLogin cid cs ruri [] pasted w) \<noteq> Inl StateMismatch"
    using CompleteRemoteLogin_state_error [of cid cs ruri "[]" pasted w StateMismatch]
    by auto
  show "fst (extractCodeAndState pasted) = RemoveBackslashes (TrimSpace pasted)"
    if "\<not> Contains (RemoveBackslashes (TrimSpace pasted)) CHR ''?''
        \<and> \<not> Contains (RemoveBackslashes (TrimSpace pasted)) CHR ''&''"
    using that by (simp add: extractCodeAndState_bare)
  show "expectedState \<noteq> []"
    if "fst (CompleteRemoteLogin cid cs ruri expectedState pasted w) = Inl NoStateParameter
        \<or> fst (CompleteRemoteLogin cid cs ruri expectedState pasted w) = Inl StateMismatch"
    using that CompleteRemoteLogin_state_error [of cid cs ruri expectedState pasted w]
    by blast
qed

lemma token_server_exchange:
  "exchangeCode cid cs code ruri token_server =
     (Inr \<lparr>AccessToken = ''new-access-token'', RefreshToken = ''new-refresh-token'',
           ExpiresAt = 22600, TokenType = ''Bearer''\<rparr>,
      token_server\<lparr>token_posts := [authorization_code_grant cid cs code ruri]\<rparr>)"
  by (simp add: exchangeCode_def postToken_def token_server_def quiet_world_def newTokens_def
      authorization_code_grant_def)

theorem CompleteRemoteLogin_without_expected_state_witness:
  "fst (CompleteRemoteLogin ''cid'' ''csecret'' ''http://localhost:8089/callback'' [] ''abc''
          token_server)
     = Inr \<lparr>AccessToken = ''new-access-token'', RefreshToken = ''new-refresh-token'',
            ExpiresAt = 22600, TokenType = ''Bearer''\<rparr>
   \<and> token_posts (snd (CompleteRemoteLogin ''cid'' ''csecret''
        ''http://localhost:8089/callback'' [] ''abc'' token_server))
     = [authorization_code_grant ''cid'' ''csecret'' ''abc'' ''http://localhost:8089/callback'']
   \<and> fst (extractCodeAndState ''abc'') = ''abc''
   \<and> fst (CompleteRemoteLogin ''cid'' ''csecret'' ''http://localhost:8089/callback'' ''5f2a9c''
            ''abc'' token_server) = Inl NoStateParameter"
proof -
  have e: "extractCodeAndState ''abc'' = (''abc'', [])"
    by code_simp
  have n: "\<not> Contains (RemoveBackslashes (TrimSpace ''abc'')) CHR ''?''
        \<and> \<not> Contains (RemoveBackslashes (TrimSpace ''abc'')) CHR ''&''"
    by code_simp
  have s: "fst (CompleteRemoteLogin ''cid'' ''csecret'' ''http://localhost:8089/callback''
            ''5f2a9c'' ''abc'' token_server) = Inl NoStateParameter"
    by (simp add: CompleteRemoteLogin_def e)
  from CompleteRemoteLogin_without_expected_state
         [of "''cid''" "''csecret''" "''http://localhost:8089/callback''" "''abc''"
             token_server "''5f2a9c''"] n s
  show ?thesis
    by (simp add: e token_server_exchange)
qed

text \<open>
  Claim C9 as stated fails on two inputs. A pasted redirect without \<open>code\<close> parameter
  is not sent to the token exchange: the call fails with "no authorization code" and
  nothing is posted. For the pasted input \<open>abc\<close> with a leading blank (no \<open>?\<close>, no
  \<open>&\<close>) the code posted is \<open>abc\<close>, not the entire pasted input.
\<close>

theorem empty_expected_state_counterexample:
  "fst (CompleteRemoteLogin ''cid'' ''csecret'' ''http://localhost:8089/callback'' []
          ''http://localhost:8089/callback?state=xyz'' token_server)
     = Inl (NoAuthorizationCode ''http://localhost:8089/callback?state=xyz'')
   \<and> token_posts (snd (CompleteRemoteLogin ''cid'' ''csecret''
        ''http://localhost:8089/callback'' [] ''http://localhost:8089/callback?state=xyz''
        token_server)) = []
   \<and> token_posts (snd (CompleteRemoteLogin ''cid'' ''csecret''
        ''http://localhost:8089/callback'' [] '' abc'' token_server))
     = [authorization_code_grant ''cid'' ''csecret'' ''abc'' ''http://localhost:8089/callback'']
   \<and> ''abc'' \<noteq> '' abc''"
proof -
  have 1: "extractCodeAndState ''http://localhost:8089/callback?state=xyz'' = ([], ''xyz'')"
    by code_simp
  have 2: "extractCodeAndState '' abc'' = (''abc'', [])"
    by code_simp
  have 3: "token_posts token_server = []"
    by (simp add: token_server_def quiet_world_def)
  show ?thesis
    by (simp add: CompleteRemoteLogin_def 1 2 3 token_server_exchange)
qed

lemma Save_os_fault: "os_fault (snd (Save cfg w)) = os_fault w"
  by (simp add: Save_def)

lemma CompleteRemoteLogin_frame:
  "disk (snd (CompleteRemoteLogin cid cs ruri st pasted w)) = disk w"
  "os_fault (snd (CompleteRemoteLogin cid cs ruri st pasted w)) = os_fault w"
  by (simp_all add: CompleteRemoteLogin_def split_beta Let_def exchangeCode_frame)

text \<open>Step 2 returns without error only on the path that stores the tokens.\<close>

lemma completeRemoteLogin_success:
  assumes "fst (completeRemoteLogin pasted cfg w) = None"
  shows "\<exists>toks w2. os_fault w2 = os_fault w
           \<and> fst (Save (cfg\<lparr>Tokens := toks, PendingAuth := None\<rparr>) w2) = None
           \<and> snd (snd (completeRemoteLogin pasted cfg w)) =
               snd (Save (cfg\<lparr>Tokens := toks, PendingAuth := None\<rparr>) w2)"
proof (cases "PendingAuth cfg")
  case None
  with assms show ?thesis
    by (simp add: completeRemoteLogin_def)
next
  case (Some pending)
  let ?w1 = "w\<lparr>time_reads := Suc (time_reads w)\<rparr>"
  let ?c = "CompleteRemoteLogin (ClientID cfg) (ClientSecret cfg) (PA_RedirectURI pending)
              (State pending) pasted ?w1"
  from assms Some have live: "\<not> PA_ExpiresAt pending <s unix_time w (time_reads w)"
    by (auto simp: completeRemoteLogin_def time_Now_Unix_def split: if_splits)
  show ?thesis
  proof (cases "fst ?c")
    case (Inl err)
    with assms Some live show ?thesis
      by (simp add: completeRemoteLogin_def time_Now_Unix_def split_beta)
  next
    case (Inr toks)
    with assms Some live
    have "fst (Save (cfg\<lparr>Tokens := toks, PendingAuth := None\<rparr>) (snd ?c)) = None"
      and "snd (snd (completeRemoteLogin pasted cfg w)) =
               snd (Save (cfg\<lparr>Tokens := toks, PendingAuth := None\<rparr>) (snd ?c))"
      by (simp_all add: completeRemoteLogin_def time_Now_Unix_def split_beta)
    moreover have "os_fault (snd ?c) = os_fault w"
      by (simp add: CompleteRemoteLogin_frame)
    ultimately show ?thesis
      by blast
  qed
qed

lemma completeRemoteLogin_input_error:
  assumes "fst (completeRemoteLogin pasted cfg w) = Some NoStateParameter
           \<or> fst (completeRemoteLogin pasted cfg w) = Some StateMismatch
           \<or> fst (completeRemoteLogin pasted cfg w) = Some (NoAuthorizationCode pasted)"
  shows "disk (snd (snd (completeRemoteLogin pasted cfg w))) = disk w"
proof (cases "PendingAuth cfg")
  case None
  then show ?thesis
    by (simp add: completeRemoteLogin_def)
next
  case (Some pending)
  with assms have live: "\<not> PA_ExpiresAt pending <s unix_time w (time_reads w)"
    by (auto simp: completeRemoteLogin_def time_Now_Unix_def split: if_splits)
  let ?w1 = "w\<lparr>time_reads := Suc (time_reads w)\<rparr>"
  let ?c = "CompleteRemoteLogin (ClientID cfg) (ClientSecret cfg) (PA_RedirectURI pending)
              (State pending) pasted ?w1"
  show ?thesis
  proof (cases "fst ?c")
    case (Inl err)
    with Some live have "snd (snd (completeRemoteLogin pasted cfg w)) = snd ?c"
      by (simp add: completeRemoteLogin_def time_Now_Unix_def split_beta)
    then show ?thesis
      by (simp add: CompleteRemoteLogin_frame)
  next
    case (Inr toks)
    with Some live assms show ?thesis
      by (auto simp: completeRemoteLogin_def time_Now_Unix_def split_beta)
  qed
qed

text \<open>
  Claim C1, what the code does. When step 2 returns without error, \<open>config.json\<close>
  holds a config without pending authorization, and a second, identical step-2 call in the
  resulting environment fails with "no pending login found". When step 2 fails because the
  pasted input has no state, a state that differs, or no code, the disk is left as it was:
  the pending authorization is not deleted, against the claim.
\<close>

theorem pending_login_kept_on_failure:
  "(fst (runAuthLogin pasted w) = None
      \<longrightarrow> (\<exists>cfg'. map_option content (config_file (disk (snd (runAuthLogin pasted w))))
                    = Some (Json cfg') \<and> PendingAuth cfg' = None)
          \<and> fst (runAuthLogin pasted (snd (runAuthLogin pasted w))) = Some NoPendingLogin)
   \<and> (fst (runAuthLogin pasted w) = Some NoStateParameter
        \<or> fst (runAuthLogin pasted w) = Some StateMismatch
        \<or> fst (runAuthLogin pasted w) = Some (NoAuthorizationCode pasted)
      \<longrightarrow> disk (snd (runAuthLogin pasted w)) = disk w)"
proof (intro conjI impI)
  assume ok: "fst (runAuthLogin pasted w) = None"
  then obtain cfg where load: "Load w = Inr cfg"
    by (cases "Load w") (auto simp: runAuthLogin_def)
  with ok have c: "fst (completeRemoteLogin pasted cfg w) = None"
    and w': "snd (runAuthLogin pasted w) = snd (snd (completeRemoteLogin pasted cfg w))"
    by (simp_all add: runAuthLogin_def)
  from completeRemoteLogin_success [OF c]
  obtain toks w2 where f: "os_fault w2 = os_fault w"
    and s: "fst (Save (cfg\<lparr>Tokens := toks, PendingAuth := None\<rparr>) w2) = None"
    and e: "snd (snd (completeRemoteLogin pasted cfg w)) =
               snd (Save (cfg\<lparr>Tokens := toks, PendingAuth := None\<rparr>) w2)"
    by blast
  let ?cfg' = "cfg\<lparr>Tokens := toks, PendingAuth := None\<rparr>"
  let ?w' = "snd (runAuthLogin pasted w)"
  have stored: "config_file (disk ?w') =
           Some \<lparr>content = Json ?cfg',
                 mode = (case config_file (disk w2) of None \<Rightarrow> 384 | Some f \<Rightarrow> mode f)\<rparr>"
    using Save_ok [OF s] by (simp add: w' e)
  then show "\<exists>cfg'. map_option content (config_file (disk ?w')) = Some (Json cfg')
                    \<and> PendingAuth cfg' = None"
    by simp
  have fault: "os_fault ?w' = os_fault w"
    by (simp add: w' e Save_os_fault f)
  have pending: "PendingAuth cfg \<noteq> None"
    using c by (cases "PendingAuth cfg") (simp_all add: completeRemoteLogin_def)
  from load pending have "os_fault w UserConfigDir = None \<and> os_fault w ReadFile = None"
    by (auto simp: Load_def zero_config_def split: option.splits file_data.splits)
  with stored fault have "Load ?w' = Inr (json_config ?cfg')"
    by (simp add: Load_def)
  then show "fst (runAuthLogin pasted ?w') = Some NoPendingLogin"
    by (simp add: runAuthLogin_def completeRemoteLogin_def json_config_def)
next
  assume err: "fst (runAuthLogin pasted w) = Some NoStateParameter
        \<or> fst (runAuthLogin pasted w) = Some StateMismatch
        \<or> fst (runAuthLogin pasted w) = Some (NoAuthorizationCode pasted)"
  then obtain cfg where load: "Load w = Inr cfg"
    by (cases "Load w") (auto simp: runAuthLogin_def)
  with err have "fst (completeRemoteLogin pasted cfg w) = Some NoStateParameter
           \<or> fst (completeRemoteLogin pasted cfg w) = Some StateMismatch
           \<or> fst (completeRemoteLogin pasted cfg w) = Some (NoAuthorizationCode pasted)"
    by (simp add: runAuthLogin_def)
  from completeRemoteLogin_input_error [OF this] load
  show "disk (snd (runAuthLogin pasted w)) = disk w"
    by (simp add: runAuthLogin_def)
qed

text \<open>
  Claim C1 at the failing inputs: with a pending authorization that has not expired, a
  pasted redirect whose state differs is rejected and the disk is unchanged, and the
  second, identical call is validated again and rejected for the same reason rather than
  with "no pending login found"; likewise for a pasted redirect without \<open>state\<close>
  parameter. After a successful step 2 the second call does fail with "no pending login
  found".
\<close>

theorem pending_login_kept_on_failure_witness:
  "fst (runAuthLogin pastedURL (stored (pendingConfig ''5f2a9c''))) = Some StateMismatch
   \<and> disk (snd (runAuthLogin pastedURL (stored (pendingConfig ''5f2a9c''))))
       = disk (stored (pendingConfig ''5f2a9c''))
   \<and> fst (runAuthLogin pastedURL
            (snd (runAuthLogin pastedURL (stored (pendingConfig ''5f2a9c'')))))
       = Some StateMismatch
   \<and> fst (runAuthLogin pastedWithoutState (stored (pendingConfig ''5f2a9c'')))
       = Some NoStateParameter
   \<and> disk (snd (runAuthLogin pastedWithoutState (stored (pendingConfig ''5f2a9c''))))
       = disk (stored (pendingConfig ''5f2a9c''))
   \<and> fst (runAuthLogin pastedWithoutState
            (snd (runAuthLogin pastedWithoutState (stored (pendingConfig ''5f2a9c'')))))
       = Some NoStateParameter
   \<and> fst (runAuthLogin pastedURL (stored (pendingConfig ''xyz''))) = None
   \<and> fst (runAuthLogin pastedURL (snd (runAuthLogin pastedURL (stored (pendingConfig ''xyz'')))))
       = Some NoPendingLogin"
proof -
  have 1: "fst (runAuthLogin pastedURL (stored (pendingConfig ''5f2a9c''))) = Some StateMismatch"
    by (simp add: run_step2 extract_pastedURL)
  have 2: "fst (runAuthLogin pastedWithoutState (stored (pendingConfig ''5f2a9c'')))
             = Some NoStateParameter"
    by (simp add: run_step2 extract_pastedWithoutState)
  have 3: "fst (runAuthLogin pastedURL (stored (pendingConfig ''xyz''))) = None"
    by (simp add: run_step2 extract_pastedURL)
  have 4: "fst (runAuthLogin pastedURL
            (snd (runAuthLogin pastedURL (stored (pendingConfig ''5f2a9c'')))))
       = Some StateMismatch"
    by (simp add: run_step2 extract_pastedURL)
  have 5: "fst (runAuthLogin pastedWithoutState
            (snd (runAuthLogin pastedWithoutState (stored (pendingConfig ''5f2a9c'')))))
       = Some NoStateParameter"
    by (simp add: run_step2 extract_pastedWithoutState)
  from pending_login_kept_on_failure [of pastedURL "stored (pendingConfig ''5f2a9c'')"] 1
    pending_login_kept_on_failure [of pastedWithoutState "stored (pendingConfig ''5f2a9c'')"] 2
    pending_login_kept_on_failure [of pastedURL "stored (pendingConfig ''xyz'')"] 3 4 5
  show ?thesis
    by simp
qed

section \<open>Properties of the extraction of code and state\<close>

lemma extractCode_empty: "extractCode input = [] \<longleftrightarrow> input = []"
  by (auto simp: extractCode_def Contains_def split: option.splits if_splits)

text \<open>
  Claim C7, amended. Manual paste (\<open>extractCode\<close>): input without \<open>?\<close> and \<open>&\<close>
  is the code; input with one of them that parses as a URL with a non-empty \<open>code\<close>
  parameter yields that parameter; in every other case (the URL does not parse, or has no
  or an empty \<open>code\<close> parameter) the entire input is the code; so the result is empty
  only for empty input, and then \<open>loginManual\<close> fails with the input error. Step 2
  (\<open>extractCodeAndState\<close>) works on the input trimmed and freed of backslashes: without
  \<open>?\<close> and \<open>&\<close> it is the code, with empty state; with one of them and a URL that
  parses, the result is the \<open>code\<close> and the \<open>state\<close> parameter; when the URL does not
  parse, it is the code, with empty state; an empty code makes \<open>CompleteRemoteLogin\<close>
  fail without any exchange. The two examples of the claim hold.
\<close>

theorem extraction_of_code_and_state:
  "(\<not> Contains input CHR ''?'' \<and> \<not> Contains input CHR ''&'' \<longrightarrow> extractCode input = input)
   \<and> ((Contains input CHR ''?'' \<or> Contains input CHR ''&'') \<and> url_Parse input = Some u
        \<and> Get (Query u) ''code'' \<noteq> []
      \<longrightarrow> extractCode input = Get (Query u) ''code'')
   \<and> ((Contains input CHR ''?'' \<or> Contains input CHR ''&'')
        \<and> (url_Parse input = None \<or> url_Parse input = Some u \<and> Get (Query u) ''code'' = [])
      \<longrightarrow> extractCode input = input)
   \<and> (extractCode input = [] \<longleftrightarrow> input = [])
   \<and> (\<not> Contains (RemoveBackslashes (TrimSpace input)) CHR ''?''
        \<and> \<not> Contains (RemoveBackslashes (TrimSpace input)) CHR ''&''
      \<longrightarrow> extractCodeAndState input = (RemoveBackslashes (TrimSpace input), []))
   \<and> ((Contains (RemoveBackslashes (TrimSpace input)) CHR ''?''
         \<or> Contains (RemoveBackslashes (TrimSpace input)) CHR ''&'')
        \<and> url_Parse (RemoveBackslashes (TrimSpace input)) = Some v
      \<longrightarrow> extractCodeAndState input = (Get (Query v) ''code'', Get (Query v) ''state''))
   \<and> ((Contains (RemoveBackslashes (TrimSpace input)) CHR ''?''
         \<or> Contains (RemoveBackslashes (TrimSpace input)) CHR ''&'')
        \<and> url_Parse (RemoveBackslashes (TrimSpace input)) = None
      \<longrightarrow> extractCodeAndState input = (RemoveBackslashes (TrimSpace input), []))
   \<and> (extractCode (TrimSpace line) = []
      \<longrightarrow> loginManual cid cs ruri line w = (Inl (NoAuthorizationCode (TrimSpace line)), w))
   \<and> (fst (extractCodeAndState input) = []
      \<longrightarrow> (\<exists>e. CompleteRemoteLogin cid cs ruri st input w = (Inl e, w)))
   \<and> extractCodeAndState ''http://host/cb?code=abc&state=xyz'' = (''abc'', ''xyz'')
   \<and> extractCode ''http://host/cb?code=abc&state=xyz'' = ''abc''
   \<and> extractCodeAndState ''abc'' = (''abc'', [])
   \<and> extractCode ''abc'' = ''abc''"
proof -
  have 1: "\<not> Contains input CHR ''?'' \<and> \<not> Contains input CHR ''&'' \<longrightarrow> extractCode input = input"
    by (simp add: extractCode_def)
  have 2: "(Contains input CHR ''?'' \<or> Contains input CHR ''&'') \<and> url_Parse input = Some u
        \<and> Get (Query u) ''code'' \<noteq> []
      \<longrightarrow> extractCode input = Get (Query u) ''code''"
    by (simp add: extractCode_def)
  have 3: "(Contains input CHR ''?'' \<or> Contains input CHR ''&'')
        \<and> (url_Parse input = None \<or> url_Parse input = Some u \<and> Get (Query u) ''code'' = [])
      \<longrightarrow> extractCode input = input"
    by (auto simp: extractCode_def)
  have 4: "extractCode input = [] \<longleftrightarrow> input = []"
    by (rule extractCode_empty)
  have 5: "\<not> Contains (RemoveBackslashes (TrimSpace input)) CHR ''?''
        \<and> \<not> Contains (RemoveBackslashes (TrimSpace input)) CHR ''&''
      \<longrightarrow> extractCodeAndState input = (RemoveBackslashes (TrimSpace input), [])"
    by (simp add: extractCodeAndState_def Let_def)
  have 6: "(Contains (RemoveBackslashes (TrimSpace input)) CHR ''?''
         \<or> Contains (RemoveBackslashes (TrimSpace input)) CHR ''&'')
        \<and> url_Parse (RemoveBackslashes (TrimSpace input)) = Some v
      \<longrightarrow> extractCodeAndState input = (Get (Query v) ''code'', Get (Query v) ''state'')"
    by (simp add: extractCodeAndState_def Let_def)
  have 7: "(Contains (RemoveBackslashes (TrimSpace input)) CHR ''?''
         \<or> Contains (RemoveBackslashes (TrimSpace input)) CHR ''&'')
        \<and> url_Parse (RemoveBackslashes (TrimSpace input)) = None
      \<longrightarrow> extractCodeAndState input = (RemoveBackslashes (TrimSpace input), [])"
    by (simp add: extractCodeAndState_def Let_def)
  have 8: "extractCode (TrimSpace line) = []
      \<longrightarrow> loginManual cid cs ruri line w = (Inl (NoAuthorizationCode (TrimSpace line)), w)"
    by (simp add: loginManual_def Let_def)
  have 9: "fst (extractCodeAndState input) = []
      \<longrightarrow> (\<exists>e. CompleteRemoteLogin cid cs ruri st input w = (Inl e, w))"
    by (simp add: CompleteRemoteLogin_def split_beta Let_def)
  have 10: "extractCodeAndState ''http://host/cb?code=abc&state=xyz'' = (''abc'', ''xyz'')"
    by code_simp
  have 11: "extractCode ''http://host/cb?code=abc&state=xyz'' = ''abc''"
    by code_simp
  have 12: "extractCodeAndState ''abc'' = (''abc'', [])"
    by code_simp
  have 13: "extractCode ''abc'' = ''abc''"
    by code_simp
  from 1 2 3 4 5 6 7 8 9 10 11 12 13 show ?thesis
    by (intro conjI)
qed

text \<open>
  Claim C7 as stated fails for manual paste on a redirect without \<open>code\<close> parameter
  (the input of \<open>TestExtractCode_URLNoCode\<close>): it contains \<open>?\<close> and parses as a URL
  whose \<open>code\<close> parameter is empty, yet the extraction result is the entire input, and
  \<open>loginManual\<close> raises no input error but posts that input as the code.
\<close>

theorem extractCode_without_code_counterexample:
  "Contains redirectWithoutCode CHR ''?''
   \<and> map_option (\<lambda>parsed. Get (Query parsed) ''code'') (url_Parse redirectWithoutCode) = Some []
   \<and> extractCode redirectWithoutCode = redirectWithoutCode
   \<and> token_posts (snd (loginManual ''cid'' ''csecret'' ''https://example.com/callback''
        redirectWithoutCode token_server))
     = [authorization_code_grant ''cid'' ''csecret'' redirectWithoutCode
          ''https://example.com/callback'']"
proof -
  have 1: "Contains redirectWithoutCode CHR ''?''"
    by code_simp
  have 2: "map_option (\<lambda>parsed. Get (Query parsed) ''code'') (url_Parse redirectWithoutCode)
             = Some []"
    by code_simp
  have 3: "extractCode redirectWithoutCode = redirectWithoutCode"
    by code_simp
  have 4: "TrimSpace redirectWithoutCode = redirectWithoutCode"
    by code_simp
  have 5: "redirectWithoutCode \<noteq> []"
    by (simp add: redirectWithoutCode_def)
  have 6: "token_posts (snd (loginManual ''cid'' ''csecret'' ''https://example.com/callback''
        redirectWithoutCode token_server))
     = [authorization_code_grant ''cid'' ''csecret'' redirectWithoutCode
          ''https://example.com/callback'']"
    by (simp add: loginManual_def Let_def 3 4 5 token_server_exchange)
  from 1 2 3 6 show ?thesis
    by simp
qed

theorem extraction_of_code_and_state_witness:
  "extractCode ''abc'' = ''abc''
   \<and> extractCode pastedURL = ''abc''
   \<and> extractCode redirectWithoutCode = redirectWithoutCode
   \<and> extractCodeAndState ''abc'' = (''abc'', [])
   \<and> extractCodeAndState pastedURL = (''abc'', ''xyz'')
   \<and> extractCodeAndState ''http://local host/?code=abc'' = (''http://local host/?code=abc'', [])
   \<and> loginManual ''cid'' ''csecret'' ''https://example.com/callback'' ''  '' token_server
       = (Inl (NoAuthorizationCode []), token_server)
   \<and> CompleteRemoteLogin ''cid'' ''csecret'' ''http://localhost:8089/callback'' []
        ''http://localhost:8089/callback?state=xyz'' token_server
       = (Inl (NoAuthorizationCode ''http://localhost:8089/callback?state=xyz''), token_server)"
proof -
  let ?u = "\<lparr>RawQuery = ''code=abc&state=xyz''\<rparr>"
  let ?e = "\<lparr>RawQuery = ''error=access_denied''\<rparr>"
  have a: "\<not> Contains ''abc'' CHR ''?'' \<and> \<not> Contains ''abc'' CHR ''&''"
    by code_simp
  have b: "(Contains pastedURL CHR ''?'' \<or> Contains pastedURL CHR ''&'')
           \<and> url_Parse pastedURL = Some ?u \<and> Get (Query ?u) ''code'' \<noteq> []"
    by code_simp
  have b': "Get (Query ?u) ''code'' = ''abc''" "Get (Query ?u) ''state'' = ''xyz''"
    by code_simp+
  have c: "(Contains redirectWithoutCode CHR ''?'' \<or> Contains redirectWithoutCode CHR ''&'')
           \<and> (url_Parse redirectWithoutCode = None
               \<or> url_Parse redirectWithoutCode = Some ?e \<and> Get (Query ?e) ''code'' = [])"
    by code_simp
  have d: "RemoveBackslashes (TrimSpace ''abc'') = ''abc''"
    "RemoveBackslashes (TrimSpace pastedURL) = pastedURL"
    "RemoveBackslashes (TrimSpace ''http://local host/?code=abc'') = ''http://local host/?code=abc''"
    by code_simp+
  have f: "(Contains ''http://local host/?code=abc'' CHR ''?''
            \<or> Contains ''http://local host/?code=abc'' CHR ''&'')
           \<and> url_Parse ''http://local host/?code=abc'' = None"
    by code_simp
  have g: "extractCode (TrimSpace ''  '') = []" "TrimSpace ''  '' = []"
    by code_simp+
  have h: "fst (extractCodeAndState ''http://localhost:8089/callback?state=xyz'') = []"
    by code_simp
  from extraction_of_code_and_state [of "''abc''"] a d
  have 1: "extractCode ''abc'' = ''abc'' \<and> extractCodeAndState ''abc'' = (''abc'', [])"
    by simp
  from extraction_of_code_and_state [of pastedURL ?u ?u] b b' d
  have 2: "extractCode pastedURL = ''abc'' \<and> extractCodeAndState pastedURL = (''abc'', ''xyz'')"
    by simp
  from extraction_of_code_and_state [of redirectWithoutCode ?e] c
  have 3: "extractCode redirectWithoutCode = redirectWithoutCode"
    by blast
  from extraction_of_code_and_state [of "''http://local host/?code=abc''"] f d
  have 4: "extractCodeAndState ''http://local host/?code=abc''
             = (''http://local host/?code=abc'', [])"
    by simp
  from extraction_of_code_and_state [of _ _ _ "''  ''" "''cid''" "''csecret''"
      "''https://example.com/callback''" token_server] g
  have 5: "loginManual ''cid'' ''csecret'' ''https://example.com/callback'' ''  '' token_server
       = (Inl (NoAuthorizationCode []), token_server)"
    by simp
  from extraction_of_code_and_state [of "''http://localhost:8089/callback?state=xyz''" _ _ _
      "''cid''" "''csecret''" "''http://localhost:8089/callback''" token_server "[]"] h
  have 6: "\<exists>e. CompleteRemoteLogin ''cid'' ''csecret'' ''http://localhost:8089/callback'' []
        ''http://localhost:8089/callback?state=xyz'' token_server = (Inl e, token_server)"
    by simp
  then have 7: "CompleteRemoteLogin ''cid'' ''csecret'' ''http://localhost:8089/callback'' []
        ''http://localhost:8089/callback?state=xyz'' token_server
       = (Inl (NoAuthorizationCode ''http://localhost:8089/callback?state=xyz''), token_server)"
    using h by (simp add: CompleteRemoteLogin_def split_beta Let_def)
  from 1 2 3 4 5 7 show ?thesis
    by simp
qed

section \<open>Properties of the credential store\<close>

lemma Save_trace_no_fault:
  assumes "\<forall>c. os_fault w c = None"
  shows "Save_trace cfg w =
     (let d1 = (case config_dir (disk w) of None \<Rightarrow> (disk w)\<lparr>config_dir := Some 448\<rparr>
                | Some m \<Rightarrow> disk w);
          m = (case config_file (disk w) of None \<Rightarrow> 384 | Some f \<Rightarrow> mode f)
      in ([d1, d1\<lparr>config_file := Some \<lparr>content = Prefix cfg, mode = m\<rparr>\<rparr>,
           d1\<lparr>config_file := Some \<lparr>content = Json cfg, mode = m\<rparr>\<rparr>], None))"
  using assms
  by (simp add: Save_trace_def os_MkdirAll_def os_WriteFile_def Let_def split: option.split)

lemma Save_trace_states:
  assumes "d \<in> set (fst (Save_trace cfg w))"
  shows "config_file d = config_file (disk w)
         \<or> (\<exists>m. config_file d = Some \<lparr>content = Prefix cfg, mode = m\<rparr>)
         \<or> (\<exists>m. config_file d = Some \<lparr>content = Json cfg, mode = m\<rparr>)"
  using assms
  by (auto simp: Save_trace_def os_MkdirAll_def os_WriteFile_def Let_def
      split: option.splits sum.splits)

lemma Save_write_fault:
  assumes "os_fault w UserConfigDir = None" and "os_fault w MkdirAll = None"
    and "os_fault w OpenFile = None" and "os_fault w Write = Some e"
  shows "fst (Save cfg w) = Some (WriteConfig e)"
    and "map_option content (config_file (disk (snd (Save cfg w)))) = Some (Prefix cfg)"
  using assms
  by (simp_all add: Save_def Save_trace_def os_MkdirAll_def os_WriteFile_def Let_def
      split: option.splits)

lemma Load_Prefix:
  assumes "map_option content (config_file (disk w)) = Some (Prefix cfg)"
  shows "\<exists>err. Load w = Inl err"
  using assms by (auto simp: Load_def split: option.splits file_data.splits)

lemma Load_Json:
  assumes "\<forall>c. os_fault w c = None"
    and "map_option content (config_file (disk w)) = Some (Json cfg)"
  shows "Load w = Inr (json_config cfg)"
  using assms by (auto simp: Load_def split: option.splits file_data.splits)

text \<open>
  Claim C5, amended. When no system call fails, \<open>Save\<close> returns no error, the config
  directory exists afterwards (created with mode 700 when it was absent), \<open>Load\<close> then
  returns the config as its JSON text carries it (every byte that is not part of valid UTF-8
  replaced by U+FFFD), and on its way the save passes through a state in which
  \<open>config.json\<close> holds only a proper prefix of the new text. Whenever \<open>Save\<close> returns
  no error, \<open>config.json\<close> holds the whole new text, and it has mode 600 when it was
  absent or had mode 600 before. When the write fails, \<open>Save\<close> returns "write config"
  and leaves \<open>config.json\<close> holding a proper prefix of the new text, which \<open>Load\<close>
  rejects. In every state a save passes through, completed or not, the file is as it was
  before, or holds a proper prefix of the new text, or holds the whole new text.
\<close>

theorem Save_writes_config:
  "((\<forall>c. os_fault w c = None)
      \<longrightarrow> fst (Save cfg w) = None
          \<and> config_dir (disk (snd (Save cfg w)))
              = Some (case config_dir (disk w) of None \<Rightarrow> 448 | Some m \<Rightarrow> m)
          \<and> Load (snd (Save cfg w)) = Inr (json_config cfg)
          \<and> (\<exists>d \<in> set (fst (Save_trace cfg w)).
                map_option content (config_file d) = Some (Prefix cfg)))
   \<and> (fst (Save cfg w) = None
      \<longrightarrow> map_option content (config_file (disk (snd (Save cfg w)))) = Some (Json cfg))
   \<and> (fst (Save cfg w) = None \<and> (\<forall>f. config_file (disk w) = Some f \<longrightarrow> mode f = 384)
      \<longrightarrow> map_option mode (config_file (disk (snd (Save cfg w)))) = Some 384)
   \<and> (os_fault w UserConfigDir = None \<and> os_fault w MkdirAll = None
        \<and> os_fault w OpenFile = None \<and> os_fault w Write = Some e
      \<longrightarrow> fst (Save cfg w) = Some (WriteConfig e)
          \<and> map_option content (config_file (disk (snd (Save cfg w)))) = Some (Prefix cfg)
          \<and> (\<exists>err. Load (snd (Save cfg w)) = Inl err))
   \<and> (\<forall>d \<in> set (fst (Save_trace cfg w)).
         config_file d = config_file (disk w)
         \<or> (\<exists>m. config_file d = Some \<lparr>content = Prefix cfg, mode = m\<rparr>)
         \<or> (\<exists>m. config_file d = Some \<lparr>content = Json cfg, mode = m\<rparr>))"
proof (intro conjI impI ballI)
  assume ok: "\<forall>c. os_fault w c = None"
  show s: "fst (Save cfg w) = None"
    using ok by (rule Save_no_fault)
  show "config_dir (disk (snd (Save cfg w)))
              = Some (case config_dir (disk w) of None \<Rightarrow> 448 | Some m \<Rightarrow> m)"
    by (simp add: Save_def Save_trace_no_fault [OF ok] Let_def split: option.split)
  show "\<exists>d \<in> set (fst (Save_trace cfg w)).
                map_option content (config_file d) = Some (Prefix cfg)"
    by (simp add: Save_trace_no_fault [OF ok] Let_def)
  from ok have "\<forall>c. os_fault (snd (Save cfg w)) c = None"
    by (simp add: Save_os_fault)
  then show "Load (snd (Save cfg w)) = Inr (json_config cfg)"
    using Save_content [OF s] by (rule Load_Json)
next
  assume "fst (Save cfg w) = None"
  then show "map_option content (config_file (disk (snd (Save cfg w)))) = Some (Json cfg)"
    by (rule Save_content)
next
  assume "fst (Save cfg w) = None \<and> (\<forall>f. config_file (disk w) = Some f \<longrightarrow> mode f = 384)"
  then show "map_option mode (config_file (disk (snd (Save cfg w)))) = Some 384"
    using Save_ok [of cfg w] by (auto split: option.splits)
next
  assume a: "os_fault w UserConfigDir = None \<and> os_fault w MkdirAll = None
        \<and> os_fault w OpenFile = None \<and> os_fault w Write = Some e"
  then show "fst (Save cfg w) = Some (WriteConfig e)"
    using Save_write_fault(1) [of w e cfg] by blast
  from a show p: "map_option content (config_file (disk (snd (Save cfg w)))) = Some (Prefix cfg)"
    using Save_write_fault(2) [of w e cfg] by blast
  show "\<exists>err. Load (snd (Save cfg w)) = Inl err"
    using p by (rule Load_Prefix)
next
  fix d
  assume "d \<in> set (fst (Save_trace cfg w))"
  then show "config_file d = config_file (disk w)
         \<or> (\<exists>m. config_file d = Some \<lparr>content = Prefix cfg, mode = m\<rparr>)
         \<or> (\<exists>m. config_file d = Some \<lparr>content = Json cfg, mode = m\<rparr>)"
    by (rule Save_trace_states)
qed

lemma json_config_freshConfig: "json_config freshConfig = freshConfig"
  by (simp add: freshConfig_def json_ascii)

text \<open>
  A save into an empty config directory, and a save over an existing config on a full
  disk.
\<close>

theorem Save_writes_config_witness:
  "fst (Save freshConfig quiet_world) = None
   \<and> disk (snd (Save freshConfig quiet_world))
       = \<lparr>config_dir = Some 448,
          config_file = Some \<lparr>content = Json freshConfig, mode = 384\<rparr>\<rparr>
   \<and> Load (snd (Save freshConfig quiet_world)) = Inr freshConfig
   \<and> \<lparr>config_dir = Some 448, config_file = Some \<lparr>content = Prefix freshConfig, mode = 384\<rparr>\<rparr>
       \<in> set (fst (Save_trace freshConfig quiet_world))
   \<and> fst (Save freshConfig (write_fails expiredConfig))
       = Some (WriteConfig ''no space left on device'')
   \<and> map_option content (config_file (disk (snd (Save freshConfig (write_fails expiredConfig)))))
       = Some (Prefix freshConfig)"
proof -
  have ok: "\<forall>c. os_fault quiet_world c = None"
    by (simp add: quiet_world_def)
  have d: "disk quiet_world = \<lparr>config_dir = None, config_file = None\<rparr>"
    by (simp add: quiet_world_def)
  have t: "\<lparr>config_dir = Some 448, config_file = Some \<lparr>content = Prefix freshConfig, mode = 384\<rparr>\<rparr>
       \<in> set (fst (Save_trace freshConfig quiet_world))"
    by (simp add: Save_trace_no_fault [OF ok] d)
  from Save_writes_config [of quiet_world freshConfig] ok d
  have "fst (Save freshConfig quiet_world) = None
    \<and> config_dir (disk (snd (Save freshConfig quiet_world))) = Some 448
    \<and> map_option content (config_file (disk (snd (Save freshConfig quiet_world))))
        = Some (Json freshConfig)
    \<and> map_option mode (config_file (disk (snd (Save freshConfig quiet_world)))) = Some 384
    \<and> Load (snd (Save freshConfig quiet_world)) = Inr freshConfig"
    by (simp add: json_config_freshConfig)
  then have q: "fst (Save freshConfig quiet_world) = None
    \<and> disk (snd (Save freshConfig quiet_world))
       = \<lparr>config_dir = Some 448,
          config_file = Some \<lparr>content = Json freshConfig, mode = 384\<rparr>\<rparr>
    \<and> Load (snd (Save freshConfig quiet_world)) = Inr freshConfig"
    by (cases "disk (snd (Save freshConfig quiet_world))";
        cases "config_file (disk (snd (Save freshConfig quiet_world)))") auto
  have f: "os_fault (write_fails expiredConfig) UserConfigDir = None
      \<and> os_fault (write_fails expiredConfig) MkdirAll = None
      \<and> os_fault (write_fails expiredConfig) OpenFile = None
      \<and> os_fault (write_fails expiredConfig) Write = Some ''no space left on device''"
    by (simp add: write_fails_def)
  from Save_writes_config [of "write_fails expiredConfig" freshConfig "''no space left on device''"] f
  have "fst (Save freshConfig (write_fails expiredConfig))
       = Some (WriteConfig ''no space left on device'')
   \<and> map_option content (config_file (disk (snd (Save freshConfig (write_fails expiredConfig)))))
       = Some (Prefix freshConfig)"
    by blast
  with q t show ?thesis
    by simp
qed

text \<open>
  Claim C5 as stated fails: the save is not atomic. Saving over an existing config on a full
  disk returns an error and leaves a file that holds neither the previous nor the new config
  but a proper prefix of the new text, which \<open>Load\<close> rejects; and a save that completes
  passes through such a state after its second system call (the file is opened with
  \<open>O_TRUNC\<close>), which is what a crash at that moment leaves.
\<close>

theorem Save_not_atomic_counterexample:
  "map_option content (config_file (disk (write_fails expiredConfig))) = Some (Json expiredConfig)
   \<and> fst (Save freshConfig (write_fails expiredConfig))
       = Some (WriteConfig ''no space left on device'')
   \<and> map_option content (config_file (disk (snd (Save freshConfig (write_fails expiredConfig)))))
       = Some (Prefix freshConfig)
   \<and> Prefix freshConfig \<noteq> Json expiredConfig
   \<and> Prefix freshConfig \<noteq> Json freshConfig
   \<and> Load (snd (Save freshConfig (write_fails expiredConfig))) = Inl ParseConfig
   \<and> fst (Save freshConfig (stored expiredConfig)) = None
   \<and> fst (Save_trace freshConfig (stored expiredConfig)) ! 1
       = \<lparr>config_dir = Some 448,
          config_file = Some \<lparr>content = Prefix freshConfig, mode = 384\<rparr>\<rparr>
   \<and> Load ((stored expiredConfig)
              \<lparr>disk := fst (Save_trace freshConfig (stored expiredConfig)) ! 1\<rparr>)
       = Inl ParseConfig"
  by (simp add: Save_def Save_trace_def os_MkdirAll_def os_WriteFile_def write_fails_def
      stored_def token_server_def quiet_world_def Load_def)

section \<open>Request bodies on retry\<close>













section \<open>Properties of the upload poller\<close>

declare poll_loop.simps(2) [simp del]

lemma tick_received_next:
  assumes "k * pollInterval \<le> prev" and "prev \<le> ready" and "ready < (k + 1) * pollInterval"
  shows "tick_received prev ready = (k + 1) * pollInterval"
proof -
  have p: "0 < pollInterval"
    by (simp add: pollInterval_def)
  have r: "ready div pollInterval = k"
    using assms by (intro div_nat_eqI) (simp_all add: mult.commute)
  have "prev div pollInterval = k"
    using assms by (intro div_nat_eqI) (simp_all add: mult.commute)
  with r show ?thesis
    by (simp add: tick_received_def)
qed

lemma poll_loop_terminal:
  assumes "ctx_done t = None" and "fetchUploadStatus (outcome t) = Inr (u, raw)"
  shows "Error u = Some e \<Longrightarrow>
           poll_loop j d prev ready (t # ts) =
             Some (Returned (Some (UploadFailed (stripHTML e)))
                     (if j then RawJSON raw else StatusSummary u)
                     (tick_received prev ready + latency t))"
    and "Error u = None \<Longrightarrow> ActivityID u = Some a \<Longrightarrow>
           poll_loop j d prev ready (t # ts) =
             Some (Returned None (if j then RawJSON raw else StatusSummary u)
                     (tick_received prev ready + latency t))"
  using assms by (simp_all add: poll_loop.simps Let_def)

lemma poll_loop_pending:
  assumes "still_pending t"
  shows "poll_loop j d prev ready (t # ts) =
           (if d < tick_received prev ready + latency t
            then Some (Returned (Some UploadTimedOut) Nothing
                         (tick_received prev ready + latency t))
            else poll_loop j d (tick_received prev ready)
                   (tick_received prev ready + latency t) ts)"
  using assms
  by (auto simp: poll_loop.simps still_pending_def Let_def split: sum.splits)

lemma poll_loop_timeout:
  assumes "poll_loop j d prev ready ts = Some (Returned (Some UploadTimedOut) p now)"
  shows "(\<exists>t \<in> set ts. still_pending t) \<and> d < now \<and> p = Nothing"
  using assms
proof (induction ts arbitrary: prev ready)
  case Nil
  then show ?case
    by simp
next
  case (Cons t ts)
  show ?case
  proof (cases "still_pending t")
    case True
    show ?thesis
    proof (cases "d < tick_received prev ready + latency t")
      case late: True
      with Cons.prems True show ?thesis
        by (simp add: poll_loop_pending)
    next
      case False
      with Cons.prems True
      have "poll_loop j d (tick_received prev ready) (tick_received prev ready + latency t) ts
              = Some (Returned (Some UploadTimedOut) p now)"
        by (simp add: poll_loop_pending)
      from Cons.IH [OF this] show ?thesis
        by simp
    qed
  next
    case False
    with Cons.prems show ?thesis
      by (auto simp: poll_loop.simps still_pending_def Let_def fetchUploadStatus_def
          apiError_def split: option.splits sum.splits do_outcome.splits if_splits)
  qed
qed

lemma poll_loop_pending_run:
  assumes "\<forall>t \<in> set pre. still_pending t \<and> latency t = 0"
    and "(k + length pre) * pollInterval \<le> d"
  shows "poll_loop j d (k * pollInterval) (k * pollInterval) (pre @ ts) =
           poll_loop j d ((k + length pre) * pollInterval) ((k + length pre) * pollInterval) ts"
  using assms
proof (induction pre arbitrary: k)
  case Nil
  then show ?case
    by simp
next
  case (Cons t pre)
  have n: "tick_received (k * pollInterval) (k * pollInterval) = (k + 1) * pollInterval"
    by (rule tick_received_next) (simp_all add: pollInterval_def)
  from Cons.prems have t: "still_pending t" "latency t = 0"
    by simp_all
  from Cons.prems have le: "(k + 1) * pollInterval \<le> d"
    by (simp add: algebra_simps)
  have "poll_loop j d (k * pollInterval) (k * pollInterval) ((t # pre) @ ts) =
          poll_loop j d ((k + 1) * pollInterval) ((k + 1) * pollInterval) (pre @ ts)"
    using t le by (simp add: poll_loop_pending n)
  also have "\<dots> = poll_loop j d ((k + 1 + length pre) * pollInterval)
                     ((k + 1 + length pre) * pollInterval) ts"
    using Cons.prems by (intro Cons.IH) (simp_all add: algebra_simps)
  finally show ?case
    by (simp add: algebra_simps)
qed

lemma pollUpload_pending_run:
  assumes "\<forall>t \<in> set pre. still_pending t \<and> latency t = 0"
    and "length pre * pollInterval \<le> timeout"
  shows "pollUpload j (pre @ ts) =
           poll_loop j timeout (length pre * pollInterval) (length pre * pollInterval) ts"
  using poll_loop_pending_run [of pre 0 timeout j ts] assms
  by (simp add: pollUpload_def)

text \<open>
  Claim C10. At every iteration, whatever the deadline and the time of the tick (so also
  at a tick that comes after the deadline has passed), a fetch that finds an error in the
  upload makes \<open>pollUpload\<close> return "upload failed" with that error, and a fetch that
  finds an activity id makes it return \<open>nil\<close>; neither is turned into a timeout. When
  \<open>pollUpload\<close> returns the timeout error, some tick of the run has seen the job
  pending and the clock read after that fetch was after the deadline. A run whose first
  ticks see the job pending, without delay and up to the deadline, goes on with the next
  tick as the loop does from that time.
\<close>

theorem deadline_checked_after_pending_only:
  "(ctx_done t = None \<and> fetchUploadStatus (outcome t) = Inr (u, raw) \<and> Error u = Some e
      \<longrightarrow> poll_loop j d prev ready (t # ts) =
            Some (Returned (Some (UploadFailed (stripHTML e)))
                    (if j then RawJSON raw else StatusSummary u)
                    (tick_received prev ready + latency t)))
   \<and> (ctx_done t = None \<and> fetchUploadStatus (outcome t) = Inr (u, raw) \<and> Error u = None
        \<and> ActivityID u = Some a
      \<longrightarrow> poll_loop j d prev ready (t # ts) =
            Some (Returned None (if j then RawJSON raw else StatusSummary u)
                    (tick_received prev ready + latency t)))
   \<and> (pollUpload j ticks = Some (Returned (Some UploadTimedOut) p now)
      \<longrightarrow> (\<exists>t \<in> set ticks. still_pending t) \<and> timeout < now \<and> p = Nothing)
   \<and> ((\<forall>t \<in> set pre. still_pending t \<and> latency t = 0) \<and> length pre * pollInterval \<le> timeout
      \<longrightarrow> pollUpload j (pre @ t # ts) =
            poll_loop j timeout (length pre * pollInterval) (length pre * pollInterval) (t # ts))"
proof (intro conjI impI)
  assume "ctx_done t = None \<and> fetchUploadStatus (outcome t) = Inr (u, raw) \<and> Error u = Some e"
  then show "poll_loop j d prev ready (t # ts) =
            Some (Returned (Some (UploadFailed (stripHTML e)))
                    (if j then RawJSON raw else StatusSummary u)
                    (tick_received prev ready + latency t))"
    by (simp add: poll_loop_terminal(1))
next
  assume "ctx_done t = None \<and> fetchUploadStatus (outcome t) = Inr (u, raw) \<and> Error u = None
        \<and> ActivityID u = Some a"
  then show "poll_loop j d prev ready (t # ts) =
            Some (Returned None (if j then RawJSON raw else StatusSummary u)
                    (tick_received prev ready + latency t))"
    by (simp add: poll_loop_terminal(2))
next
  assume "pollUpload j ticks = Some (Returned (Some UploadTimedOut) p now)"
  then have "(\<exists>t \<in> set ticks. still_pending t) \<and> timeout < now \<and> p = Nothing"
    unfolding pollUpload_def by (rule poll_loop_timeout)
  then show "\<exists>t \<in> set ticks. still_pending t" and "timeout < now" and "p = Nothing"
    by simp_all
next
  assume "(\<forall>t \<in> set pre. still_pending t \<and> latency t = 0) \<and> length pre * pollInterval \<le> timeout"
  then show "pollUpload j (pre @ t # ts) =
            poll_loop j timeout (length pre * pollInterval) (length pre * pollInterval) (t # ts)"
    by (simp add: pollUpload_pending_run)
qed

lemma fetched_simps:
  "ctx_done (fetched u) = None"
  "latency (fetched u) = 0"
  "fetchUploadStatus (outcome (fetched u)) = Inr (u, ''{...}'')"
  by (simp_all add: fetched_def fetchUploadStatus_def)

lemma still_pending_processing: "still_pending (fetched processing)"
  by (simp add: still_pending_def fetched_simps processing_def)

theorem deadline_checked_after_pending_only_witness:
  "pollUpload False (replicate 100 (fetched processing) @ [fetched ready555])
     = Some (Returned None (StatusSummary ready555) 303000000000)
   \<and> timeout < 303000000000
   \<and> pollUpload False (replicate 100 (fetched processing) @ [fetched processing])
       = Some (Returned (Some UploadTimedOut) Nothing 303000000000)
   \<and> still_pending (fetched processing)"
proof -
  let ?pre = "replicate 100 (fetched processing)"
  have pre: "(\<forall>t \<in> set ?pre. still_pending t \<and> latency t = 0)
             \<and> length ?pre * pollInterval \<le> timeout"
    by (simp add: still_pending_processing fetched_simps pollInterval_def timeout_def)
  have at: "tick_received (100 * pollInterval) (100 * pollInterval) = 303000000000"
    using tick_received_next [of 100 "100 * pollInterval" "100 * pollInterval"]
    by (simp add: pollInterval_def)
  have fin: "ctx_done (fetched ready555) = None
      \<and> fetchUploadStatus (outcome (fetched ready555)) = Inr (ready555, ''{...}'')
      \<and> Error ready555 = None \<and> ActivityID ready555 = Some 555"
    by (simp add: fetched_simps ready555_def)
  from deadline_checked_after_pending_only
         [of "fetched ready555" ready555 "''{...}''" _ False timeout "100 * pollInterval"
             "100 * pollInterval" "[]" 555 _ _ _ ?pre] pre fin
  have 1: "pollUpload False (?pre @ [fetched ready555])
     = Some (Returned None (StatusSummary ready555) 303000000000)"
    by (simp add: at fetched_simps)
  have 2: "pollUpload False (?pre @ [fetched processing])
       = Some (Returned (Some UploadTimedOut) Nothing 303000000000)"
    using pre
    by (simp add: pollUpload_pending_run poll_loop_pending still_pending_processing at
        fetched_simps timeout_def)
  from deadline_checked_after_pending_only
         [of _ _ _ _ False _ _ _ _ _ "?pre @ [fetched processing]" Nothing 303000000000] 2
  have 3: "timeout < 303000000000"
    by simp
  from 1 2 3 still_pending_processing show ?thesis
    by simp
qed

lemma pollUpload_three_fetches:
  assumes p1: "still_pending t1" and l1: "latency t1 < pollInterval"
    and p2: "still_pending t2" and l2: "latency t2 < pollInterval"
  shows "pollUpload j (t1 # t2 # ts) =
           poll_loop j timeout (2 * pollInterval) (2 * pollInterval + latency t2) ts"
    and "tick_received (2 * pollInterval) (2 * pollInterval + latency t2) = 3 * pollInterval"
proof -
  have a1: "tick_received 0 0 = pollInterval"
    using tick_received_next [of 0 0 0] by (simp add: pollInterval_def)
  have a2: "tick_received pollInterval (pollInterval + latency t1) = 2 * pollInterval"
    using tick_received_next [of 1 pollInterval "pollInterval + latency t1"] l1 by simp
  show a3: "tick_received (2 * pollInterval) (2 * pollInterval + latency t2) = 3 * pollInterval"
    using tick_received_next [of 2 "2 * pollInterval" "2 * pollInterval + latency t2"] l2
    by simp
  have t1: "\<not> timeout < pollInterval + latency t1"
    using l1 by (simp add: pollInterval_def timeout_def)
  have t2: "\<not> timeout < 2 * pollInterval + latency t2"
    using l2 by (simp add: pollInterval_def timeout_def)
  show "pollUpload j (t1 # t2 # ts) =
           poll_loop j timeout (2 * pollInterval) (2 * pollInterval + latency t2) ts"
    by (simp add: pollUpload_def poll_loop_pending [OF p1] poll_loop_pending [OF p2] a1 a2 t1 t2)
qed

text \<open>
  Claim C8, amended. When the first two fetches see the job pending and take less than
  the poll interval, and the third returns an upload with activity id 555, \<open>pollUpload\<close>
  returns \<open>nil\<close> after reporting that upload, three poll intervals after it started plus
  the time of the third fetch: 9 seconds or more, and not earlier, since after the two
  first fetches it is still polling.
\<close>

theorem third_fetch_after_three_intervals:
  "still_pending t1 \<and> latency t1 < pollInterval \<and> still_pending t2 \<and> latency t2 < pollInterval
     \<and> ctx_done t3 = None \<and> fetchUploadStatus (outcome t3) = Inr (u, raw)
     \<and> Error u = None \<and> ActivityID u = Some 555
   \<longrightarrow> pollUpload j [t1, t2, t3] =
         Some (Returned None (if j then RawJSON raw else StatusSummary u)
                 (3 * pollInterval + latency t3))
       \<and> 9 * 10 ^ 9 \<le> 3 * pollInterval + latency t3
       \<and> pollUpload j [t1, t2] = None"
proof (intro impI)
  assume h: "still_pending t1 \<and> latency t1 < pollInterval \<and> still_pending t2
     \<and> latency t2 < pollInterval
     \<and> ctx_done t3 = None \<and> fetchUploadStatus (outcome t3) = Inr (u, raw)
     \<and> Error u = None \<and> ActivityID u = Some 555"
  then have p: "still_pending t1" "latency t1 < pollInterval" "still_pending t2"
    "latency t2 < pollInterval"
    by simp_all
  have run: "pollUpload j (t1 # t2 # ts) =
           poll_loop j timeout (2 * pollInterval) (2 * pollInterval + latency t2) ts" for ts
    by (rule pollUpload_three_fetches(1) [OF p])
  have at: "tick_received (2 * pollInterval) (2 * pollInterval + latency t2) = 3 * pollInterval"
    by (rule pollUpload_three_fetches(2) [OF p])
  from h have "pollUpload j [t1, t2, t3] =
         Some (Returned None (if j then RawJSON raw else StatusSummary u)
                 (3 * pollInterval + latency t3))"
    by (simp add: run poll_loop_terminal(2) at)
  moreover have "9 * 10 ^ 9 \<le> 3 * pollInterval + latency t3"
    by (simp add: pollInterval_def)
  moreover have "pollUpload j [t1, t2] = None"
    by (simp add: run)
  ultimately show "pollUpload j [t1, t2, t3] =
         Some (Returned None (if j then RawJSON raw else StatusSummary u)
                 (3 * pollInterval + latency t3))
       \<and> 9 * 10 ^ 9 \<le> 3 * pollInterval + latency t3
       \<and> pollUpload j [t1, t2] = None"
    by simp
qed

theorem third_fetch_after_three_intervals_witness:
  "pollUpload False [fetched processing, fetched processing, fetched ready555]
     = Some (Returned None (StatusSummary ready555) 9000000000)
   \<and> pollUpload False [fetched processing, fetched processing] = None"
proof -
  have h: "still_pending (fetched processing) \<and> latency (fetched processing) < pollInterval
     \<and> ctx_done (fetched ready555) = None
     \<and> fetchUploadStatus (outcome (fetched ready555)) = Inr (ready555, ''{...}'')
     \<and> Error ready555 = None \<and> ActivityID ready555 = Some 555"
    by (simp add: still_pending_processing fetched_simps ready555_def pollInterval_def)
  from third_fetch_after_three_intervals
         [of "fetched processing" "fetched processing" "fetched ready555" ready555 "''{...}''"
             False] h
  show ?thesis
    by (simp add: fetched_simps pollInterval_def)
qed

text \<open>
  Claim C8 as stated fails: with fetches that take no time, the run pending, pending,
  activity 555 ends 9 seconds after the start of the poll, a full poll interval later than
  6 seconds, because the ticker delivers its first tick 3 seconds after the start.
\<close>

theorem success_after_six_seconds_counterexample:
  "pollUpload False [fetched processing, fetched processing, fetched ready555]
     = Some (Returned None (StatusSummary ready555) 9000000000)
   \<and> \<not> (9000000000 < 6000000000 + pollInterval)
   \<and> tick_received 0 0 = 3000000000"
proof -
  have 1: "pollUpload False [fetched processing, fetched processing, fetched ready555]
     = Some (Returned None (StatusSummary ready555) 9000000000)"
    by (simp add: pollUpload_def poll_loop.simps fetched_def fetchUploadStatus_def
        processing_def ready555_def tick_received_def pollInterval_def timeout_def)
  have 2: "\<not> (9000000000 < 6000000000 + pollInterval)"
    by (simp add: pollInterval_def)
  have 3: "tick_received 0 0 = 3000000000"
    by (simp add: tick_received_def pollInterval_def)
  from 1 2 3 show ?thesis
    by simp
qed

end
